theory Spec2Isabelle
  imports Complex_Main "HOL-Library.Word" "HOL-Library.Log_Nat"
begin

section \<open>Python's floats\<close>

text \<open>
  The numbers of the notebook are Python floats and ints. A Python float is an IEEE 754
  binary64 value: a sign and 63 bits of magnitude, of which the upper 11 are the biased
  exponent and the lower 52 the fraction. The magnitudes below \<open>2047 * 2 ^ 52\<close> are
  the finite values (those below \<open>2 ^ 52\<close> the zero and the subnormal numbers), the
  magnitude \<open>2047 * 2 ^ 52\<close> is infinity, and every greater magnitude is a NaN.
\<close>

datatype double = Double (negative: bool) (magnitude: "63 word")

definition bits :: "double \<Rightarrow> int" where
  "bits x = uint (magnitude x)"

definition inf_bits :: int where
  "inf_bits = 2047 * 2 ^ 52"

definition is_nan :: "double \<Rightarrow> bool" where
  "is_nan x \<longleftrightarrow> inf_bits < bits x"

definition is_inf :: "double \<Rightarrow> bool" where
  "is_inf x \<longleftrightarrow> bits x = inf_bits"

definition is_zero :: "double \<Rightarrow> bool" where
  "is_zero x \<longleftrightarrow> bits x = 0"

text \<open>
  \<open>make_double\<close> builds a float from a sign and a magnitude. Every NaN that an operation
  produces is the same quiet NaN: Python does not tell one NaN from another.
\<close>

definition make_double :: "bool \<Rightarrow> int \<Rightarrow> double" where
  "make_double sg b = Double sg (word_of_int b)"

definition nan :: double where
  "nan = make_double False (inf_bits + 2 ^ 51)"

definition infinity :: "bool \<Rightarrow> double" where
  "infinity sg = make_double sg inf_bits"

text \<open>
  A finite float is its mantissa times two to its exponent. The mantissa of a normal
  number carries the implicit leading bit.
\<close>

definition mantissa :: "double \<Rightarrow> int" where
  "mantissa x = (if bits x div 2 ^ 52 = 0 then bits x mod 2 ^ 52 else 2 ^ 52 + bits x mod 2 ^ 52)"

definition exponent :: "double \<Rightarrow> int" where
  "exponent x = max (bits x div 2 ^ 52) 1 - 1075"

definition valof :: "double \<Rightarrow> real" where
  "valof x =
     (if is_zero x then 0
      else (if negative x then - 1 else 1) * of_int (mantissa x) * 2 powi exponent x)"

text \<open>
  Rounding to the nearest float, ties to the even mantissa, of the exact value
  \<open>m * 2 ^ e\<close> with \<open>0 \<le> m\<close>. The result is the magnitude of the float: at most 53
  bits of \<open>m\<close> are kept, fewer for a subnormal result, and a carry out of the mantissa
  moves into the exponent because the exponent field sits above the fraction. A
  result beyond the largest finite float is infinity.
\<close>

definition round_half_even :: "int \<Rightarrow> nat \<Rightarrow> int" where
  "round_half_even m k =
     (let q = m div 2 ^ k; r = m mod 2 ^ k; half = 2 ^ (k - 1)
      in if half < r \<or> (r = half \<and> odd q) then q + 1 else q)"

definition shift_round :: "int \<Rightarrow> int \<Rightarrow> int" where
  "shift_round m k = (if k \<le> 0 then m * 2 ^ nat (- k) else round_half_even m (nat k))"

definition round_bits :: "int \<Rightarrow> int \<Rightarrow> int" where
  "round_bits m e =
     (if m = 0 then 0
      else let e' = max (e + bitlen m - 53) (- 1074)
           in min ((e' + 1074) * 2 ^ 52 + shift_round m (e' - e)) inf_bits)"

text \<open>
  The product of two floats, as \<^verbatim>\<open>x * y\<close> computes it: NaN if an operand is NaN or
  the operands are zero and infinity, infinity if one operand is infinite, and otherwise
  the exact product rounded. The sign is the exclusive or of the signs.
\<close>

definition fmul :: "double \<Rightarrow> double \<Rightarrow> double" where
  "fmul x y =
     (if is_nan x \<or> is_nan y then nan
      else if (is_inf x \<and> is_zero y) \<or> (is_zero x \<and> is_inf y) then nan
      else if is_inf x \<or> is_inf y then infinity (negative x \<noteq> negative y)
      else make_double (negative x \<noteq> negative y)
             (round_bits (mantissa x * mantissa y) (exponent x + exponent y)))"

text \<open>
  \<open>float_of_int n\<close> is the float nearest to the integer \<open>n\<close>; the float literals of
  the notebook, \<^verbatim>\<open>0.\<close>, \<^verbatim>\<open>1.\<close> and \<^verbatim>\<open>640.\<close>, are \<open>float_zero\<close>, \<open>float_one\<close>
  and \<open>float_of_int 640\<close>. \<open>negative_zero\<close> is \<^verbatim>\<open>-0.0\<close>.
\<close>

definition float_of_int :: "int \<Rightarrow> double" where
  "float_of_int n = make_double (n < 0) (round_bits \<bar>n\<bar> 0)"

definition float_zero :: double where
  "float_zero = make_double False 0"

definition float_one :: double where
  "float_one = make_double False (1023 * 2 ^ 52)"

definition negative_zero :: double where
  "negative_zero = make_double True 0"

section \<open>Python's numbers\<close>

text \<open>
  A number is an int, of any size, or a float. The product of two ints is exact. In a
  product of an int and a float the int is first converted to a float, and the
  conversion raises \<^verbatim>\<open>OverflowError\<close> when the int is too large for a finite float.
\<close>

datatype error = OverflowError

definition int_to_double :: "int \<Rightarrow> error + double" where
  "int_to_double n = (if is_inf (float_of_int n) then Inl OverflowError else Inr (float_of_int n))"

datatype pynum = PyInt int | PyFloat double

fun py_mul :: "pynum \<Rightarrow> pynum \<Rightarrow> error + pynum" where
  "py_mul (PyInt a) (PyInt b) = Inr (PyInt (a * b))"
| "py_mul (PyInt a) (PyFloat y) =
     (case int_to_double a of Inl err \<Rightarrow> Inl err | Inr x \<Rightarrow> Inr (PyFloat (fmul x y)))"
| "py_mul (PyFloat x) (PyInt b) =
     (case int_to_double b of Inl err \<Rightarrow> Inl err | Inr y \<Rightarrow> Inr (PyFloat (fmul x y)))"
| "py_mul (PyFloat x) (PyFloat y) = Inr (PyFloat (fmul x y))"

text \<open>
  Comparisons are exact, also between an int and a float: each operand has a value, a
  real number or one of the two infinities, and a NaN has none. Every comparison with
  a NaN is false. The functions below are \<^verbatim>\<open><\<close>, \<^verbatim>\<open>>\<close>, \<^verbatim>\<open><=\<close>, \<^verbatim>\<open>==\<close> and
  \<^verbatim>\<open>math.isnan\<close>.
\<close>

datatype extended = Minus_Infinity | Number real | Plus_Infinity

fun less_extended :: "extended \<Rightarrow> extended \<Rightarrow> bool" where
  "less_extended (Number u) (Number v) \<longleftrightarrow> u < v"
| "less_extended Minus_Infinity Minus_Infinity \<longleftrightarrow> False"
| "less_extended Minus_Infinity v \<longleftrightarrow> True"
| "less_extended Plus_Infinity v \<longleftrightarrow> False"
| "less_extended (Number u) Minus_Infinity \<longleftrightarrow> False"
| "less_extended (Number u) Plus_Infinity \<longleftrightarrow> True"

fun value_of :: "pynum \<Rightarrow> extended option" where
  "value_of (PyInt n) = Some (Number (of_int n))"
| "value_of (PyFloat x) =
     (if is_nan x then None
      else if is_inf x then Some (if negative x then Minus_Infinity else Plus_Infinity)
      else Some (Number (valof x)))"

definition py_lt :: "pynum \<Rightarrow> pynum \<Rightarrow> bool" where
  "py_lt a b =
     (case value_of a of None \<Rightarrow> False
      | Some u \<Rightarrow> (case value_of b of None \<Rightarrow> False | Some v \<Rightarrow> less_extended u v))"

definition py_gt :: "pynum \<Rightarrow> pynum \<Rightarrow> bool" where
  "py_gt a b = py_lt b a"

definition py_le :: "pynum \<Rightarrow> pynum \<Rightarrow> bool" where
  "py_le a b =
     (case value_of a of None \<Rightarrow> False
      | Some u \<Rightarrow> (case value_of b of None \<Rightarrow> False | Some v \<Rightarrow> \<not> less_extended v u))"

definition py_eq :: "pynum \<Rightarrow> pynum \<Rightarrow> bool" where
  "py_eq a b =
     (case value_of a of None \<Rightarrow> False
      | Some u \<Rightarrow> (case value_of b of None \<Rightarrow> False | Some v \<Rightarrow> u = v))"

definition py_isnan :: "pynum \<Rightarrow> bool" where
  "py_isnan a \<longleftrightarrow> value_of a = None"

section \<open>The simulated motors\<close>

text \<open>
  The notebook creates two simulated motors, \<^verbatim>\<open>x = SynAxis(name='x')\<close> and
  \<^verbatim>\<open>y = SynAxis(name='y')\<close>. They are objects that the centroid function receives by
  reference: a reference is one of the two global names, and the objects live in the
  state. The class of the motors belongs to a library, so the type \<open>'m\<close> of a motor
  object is left open. The state also keeps the names of the signals whose trigger was
  called, oldest first, so that the order of the calls made by a method can be observed.
\<close>

datatype axis = X | Y

record 'm state =
  motor_x :: 'm
  motor_y :: 'm
  triggered :: "string list"

fun motor_of :: "axis \<Rightarrow> 'm state \<Rightarrow> 'm" where
  "motor_of X s = motor_x s"
| "motor_of Y s = motor_y s"

fun put_motor :: "axis \<Rightarrow> 'm \<Rightarrow> 'm state \<Rightarrow> 'm state" where
  "put_motor X m s = s\<lparr>motor_x := m\<rparr>"
| "put_motor Y m s = s\<lparr>motor_y := m\<rparr>"

section \<open>The centroid function\<close>

text \<open>
  \<^verbatim>\<open>
  def centroid_from_motor(motor, size=640., scale=1.):
      position = motor.position
      centroid = position * scale
      if centroid < 0. or centroid > size:
          return 0.
      else:
          return centroid
  \<close>
  \<^verbatim>\<open>motor.position\<close> is a property of the library's motor class. It is the parameter
  \<open>get_position\<close>: reading it gives a number and the motor as the read leaves it. The
  function returns the state it leaves behind together with its value or the error it
  raises.
\<close>

definition centroid_from_motor ::
    "('m \<Rightarrow> pynum \<times> 'm) \<Rightarrow> axis \<Rightarrow> pynum \<Rightarrow> pynum \<Rightarrow> 'm state
      \<Rightarrow> (error + pynum) \<times> 'm state" where
  "centroid_from_motor get_position motor size' scale' s =
     (case get_position (motor_of motor s) of
        (position, m) \<Rightarrow>
          (case py_mul position scale' of
             Inl err \<Rightarrow> (Inl err, put_motor motor m s)
           | Inr centroid \<Rightarrow>
               if py_lt centroid (PyFloat float_zero) \<or> py_gt centroid size'
               then (Inr (PyFloat float_zero), put_motor motor m s)
               else (Inr centroid, put_motor motor m s)))"

text \<open>
  \<^verbatim>\<open>partial(centroid_from_motor, motor)\<close>, called with no further argument: the
  function at the default arguments \<^verbatim>\<open>size=640.\<close> and \<^verbatim>\<open>scale=1.\<close>.
\<close>

definition partial_centroid_from_motor ::
    "('m \<Rightarrow> pynum \<times> 'm) \<Rightarrow> axis \<Rightarrow> 'm state \<Rightarrow> (error + pynum) \<times> 'm state" where
  "partial_centroid_from_motor get_position motor =
     centroid_from_motor get_position motor (PyFloat (float_of_int 640)) (PyFloat float_one)"

section \<open>The simulated detector\<close>

text \<open>
  The detector's signals are of the class \<^verbatim>\<open>SynSignal\<close>, which the notebook
  describes as follows: it "allows us to plug in a Python function that is evaluated
  every time we trigger it". A signal has a name and keeps the value of the last
  evaluation of its function. The function is given where the component is declared,
  so the trigger of a signal takes it as an argument. A call of the trigger leaves the
  name of the signal in the list of triggered signals; when the function raises, the
  error passes through the trigger and the signal keeps its value.
\<close>

record SynSignal =
  name :: string
  readback :: pynum

definition SynSignal_trigger ::
    "('m state \<Rightarrow> (error + pynum) \<times> 'm state) \<Rightarrow> SynSignal \<Rightarrow> 'm state
      \<Rightarrow> (error + unit) \<times> SynSignal \<times> 'm state" where
  "SynSignal_trigger func sig s =
     (case func (s\<lparr>triggered := triggered s @ [name sig]\<rparr>) of
        (Inl err, s') \<Rightarrow> (Inl err, sig, s')
      | (Inr v, s') \<Rightarrow> (Inr (), sig\<lparr>readback := v\<rparr>, s'))"

text \<open>
  \<^verbatim>\<open>
  class Imager(Device):
      x_centroid = Cpt(SynSignal, func=partial(centroid_from_motor, x))
      y_centroid = Cpt(SynSignal, func=partial(centroid_from_motor, y))

      @property
      def hints(self):
          return {'fields': [self.x_centroid.name, self.y_centroid.name]}

      def trigger(self):
          self.x_centroid.trigger()
          self.y_centroid.trigger()
          return super().trigger()
  \<close>
  An instance has the name it was created with and one signal for each of the two
  declared components. The functions of the two components are fixed by the class.
\<close>

record Imager =
  device_name :: string
  x_centroid :: SynSignal
  y_centroid :: SynSignal

definition x_centroid_func ::
    "('m \<Rightarrow> pynum \<times> 'm) \<Rightarrow> 'm state \<Rightarrow> (error + pynum) \<times> 'm state" where
  "x_centroid_func get_position = partial_centroid_from_motor get_position X"

definition y_centroid_func ::
    "('m \<Rightarrow> pynum \<times> 'm) \<Rightarrow> 'm state \<Rightarrow> (error + pynum) \<times> 'm state" where
  "y_centroid_func get_position = partial_centroid_from_motor get_position Y"

definition hints :: "Imager \<Rightarrow> (string \<rightharpoonup> string list)" where
  "hints self = [''fields'' \<mapsto> [name (x_centroid self), name (y_centroid self)]]"

text \<open>
  The trigger of the base class \<^verbatim>\<open>Device\<close> belongs to the library and is a
  parameter here: given the device and the state it returns a status or raises, and
  leaves a device and a state. An error raised by the trigger of a signal ends the
  method at that call.
\<close>

definition Imager_trigger ::
    "('m \<Rightarrow> pynum \<times> 'm) \<Rightarrow> (Imager \<Rightarrow> 'm state \<Rightarrow> (error + 'status) \<times> Imager \<times> 'm state)
      \<Rightarrow> Imager \<Rightarrow> 'm state \<Rightarrow> (error + 'status) \<times> Imager \<times> 'm state" where
  "Imager_trigger get_position super_trigger self s =
     (case SynSignal_trigger (x_centroid_func get_position) (x_centroid self) s of
        (Inl err, xc, s1) \<Rightarrow> (Inl err, self\<lparr>x_centroid := xc\<rparr>, s1)
      | (Inr _, xc, s1) \<Rightarrow>
          (case SynSignal_trigger (y_centroid_func get_position)
                  (y_centroid (self\<lparr>x_centroid := xc\<rparr>)) s1 of
             (Inl err, yc, s2) \<Rightarrow> (Inl err, self\<lparr>x_centroid := xc, y_centroid := yc\<rparr>, s2)
           | (Inr _, yc, s2) \<Rightarrow> super_trigger (self\<lparr>x_centroid := xc, y_centroid := yc\<rparr>) s2))"

section \<open>Concrete motors and states\<close>

text \<open>
  Two motors on which the functions are evaluated. Both hold the position they were
  moved to. Reading the position of the first leaves the motor as it is; reading the
  position of the second also stores the value read in a cache.
\<close>

record SynAxis =
  axis_name :: string
  setting :: pynum
  cache :: "pynum option"

definition stored_position :: "SynAxis \<Rightarrow> pynum \<times> SynAxis" where
  "stored_position m = (setting m, m)"

definition caching_position :: "SynAxis \<Rightarrow> pynum \<times> SynAxis" where
  "caching_position m = (setting m, m\<lparr>cache := Some (setting m)\<rparr>)"

definition axes_at :: "pynum \<Rightarrow> pynum \<Rightarrow> SynAxis state" where
  "axes_at px py =
     \<lparr>motor_x = \<lparr>axis_name = ''x'', setting = px, cache = None\<rparr>,
      motor_y = \<lparr>axis_name = ''y'', setting = py, cache = None\<rparr>, triggered = []\<rparr>"

text \<open>
  A detector, and a base trigger that reports completion at once and changes neither
  the device nor the state.
\<close>

definition example_imager :: Imager where
  "example_imager =
     \<lparr>device_name = ''imager'',
      x_centroid = \<lparr>name = ''imager_x_centroid'', readback = PyFloat float_zero\<rparr>,
      y_centroid = \<lparr>name = ''imager_y_centroid'', readback = PyFloat float_zero\<rparr>\<rparr>"

definition finished_trigger :: "Imager \<Rightarrow> 'm state \<Rightarrow> (error + bool) \<times> Imager \<times> 'm state" where
  "finished_trigger self s = (Inr True, self, s)"

text \<open>
  An int too large for a float, and the float \<^verbatim>\<open>213.33333333333334\<close>, whose exact
  product with 3 is greater than 640 and whose floating-point product with 3 is 640.
\<close>

definition huge_int :: int where
  "huge_int = 2 ^ 1024"

definition float_213 :: double where
  "float_213 = make_double False 4641710015943191211"

section \<open>Floats: decoding and rounding\<close>

lemma bits_range: "0 \<le> bits x \<and> bits x < 2 ^ 63"
  using uint_lt2p [of "magnitude x"] by (simp add: bits_def)

lemma bits_make_double: "0 \<le> b \<Longrightarrow> b < 2 ^ 63 \<Longrightarrow> bits (make_double sg b) = b"
  by (simp add: bits_def make_double_def uint_word_of_int)

lemma negative_make_double: "negative (make_double sg b) = sg"
  by (simp add: make_double_def)

lemma make_double_bits: "make_double (negative x) (bits x) = x"
  by (simp add: bits_def make_double_def)

lemma is_inf_make_double: "is_inf (make_double sg inf_bits)"
proof -
  have "bits (make_double sg inf_bits) = inf_bits"
    by (rule bits_make_double) (simp_all add: inf_bits_def)
  then show ?thesis
    by (simp add: is_inf_def)
qed

lemma float_one_bits: "bits float_one = 1023 * 2 ^ 52"
  unfolding float_one_def by (rule bits_make_double) simp_all

lemma float_one_parts:
  "mantissa float_one = 2 ^ 52" "exponent float_one = - 52"
  "\<not> is_nan float_one" "\<not> is_inf float_one" "\<not> is_zero float_one" "\<not> negative float_one"
  by (simp_all add: mantissa_def exponent_def is_nan_def is_inf_def is_zero_def inf_bits_def
      float_one_bits) (simp add: float_one_def negative_make_double)

lemma float_zero_parts:
  "bits float_zero = 0" "is_zero float_zero" "\<not> is_nan float_zero" "\<not> is_inf float_zero"
  "valof float_zero = 0"
proof -
  show b: "bits float_zero = 0"
    unfolding float_zero_def by (rule bits_make_double) simp_all
  then show "is_zero float_zero" "\<not> is_nan float_zero" "\<not> is_inf float_zero"
    "valof float_zero = 0"
    by (simp_all add: is_zero_def is_nan_def is_inf_def inf_bits_def valof_def)
qed

lemma negative_zero_parts:
  "bits negative_zero = 0" "negative negative_zero" "\<not> is_nan negative_zero"
  "value_of (PyFloat negative_zero) = Some (Number 0)"
proof -
  show b: "bits negative_zero = 0"
    unfolding negative_zero_def by (rule bits_make_double) simp_all
  show "negative negative_zero"
    by (simp add: negative_zero_def negative_make_double)
  show "\<not> is_nan negative_zero"
    using b by (simp add: is_nan_def inf_bits_def)
  show "value_of (PyFloat negative_zero) = Some (Number 0)"
    using b by (simp add: value_of.simps is_nan_def is_inf_def inf_bits_def valof_def is_zero_def)
qed

lemma nan_bits: "bits nan = inf_bits + 2 ^ 51"
  unfolding nan_def by (rule bits_make_double) (simp_all add: inf_bits_def)

lemma is_nan_nan: "is_nan nan"
  by (simp add: is_nan_def nan_bits)

lemma mantissa_nonneg: "0 \<le> mantissa x"
  using bits_range [of x] by (simp add: mantissa_def)

subsection \<open>Multiplying by one is exact\<close>

lemma shift_round_exact: "shift_round (m * 2 ^ 52) 52 = m"
  by (simp add: shift_round_def round_half_even_def)

lemma round_bits_subnormal:
  assumes "0 < b" "b < 2 ^ 52"
  shows "round_bits (b * 2 ^ 52) (- 1074 - 52) = b"
proof -
  have len: "bitlen (b * 2 ^ 52) = bitlen b + 52"
    using bitlen_pow2 [of b 52] assms by simp
  have "bitlen b \<le> 52"
    using assms by (simp add: bitlen_le_iff_power)
  then have e': "max (- 1074 - 52 + bitlen (b * 2 ^ 52) - 53) (- 1074) = - 1074"
    using len by simp
  have "b \<le> inf_bits"
    using assms by (simp add: inf_bits_def)
  then show ?thesis
    using assms shift_round_exact [of b] unfolding round_bits_def e' Let_def by simp
qed

lemma round_bits_normal:
  assumes "1 \<le> be" "0 \<le> f" "f < 2 ^ 52" "be * 2 ^ 52 + f \<le> inf_bits"
  shows "round_bits ((2 ^ 52 + f) * 2 ^ 52) (be - 1075 - 52) = be * 2 ^ 52 + f"
proof -
  have "bitlen (2 ^ 52 + f) = 53"
    using bitlen_twopow_add_eq [of f 52] assms by simp
  moreover have "bitlen ((2 ^ 52 + f) * 2 ^ 52) = bitlen (2 ^ 52 + f) + 52"
    using bitlen_pow2 [of "2 ^ 52 + f" 52] assms by simp
  ultimately have len: "bitlen ((2 ^ 52 + f) * 2 ^ 52) = 105"
    by simp
  have e': "max (be - 1075 - 52 + bitlen ((2 ^ 52 + f) * 2 ^ 52) - 53) (- 1074) = be - 1075"
    using len assms by simp
  have nz: "(2 ^ 52 + f) * 2 ^ 52 \<noteq> 0"
    using assms by simp
  have k: "be - 1075 - (be - 1075 - 52) = 52"
    by simp
  have "(be - 1075 + 1074) * 2 ^ 52 + (2 ^ 52 + f) = be * 2 ^ 52 + f"
    by (simp add: algebra_simps)
  then show ?thesis
    using assms nz shift_round_exact [of "2 ^ 52 + f"] unfolding round_bits_def e' Let_def k
    by simp
qed

lemma round_bits_exact:
  assumes "\<not> is_nan x" "\<not> is_inf x"
  shows "round_bits (mantissa x * 2 ^ 52) (exponent x - 52) = bits x"
proof -
  have range: "0 \<le> bits x" "bits x < inf_bits"
    using assms bits_range [of x] by (simp_all add: is_nan_def is_inf_def)
  show ?thesis
  proof (cases "bits x div 2 ^ 52 = 0")
    case True
    then have small: "bits x < 2 ^ 52"
      using range by (auto simp add: zdiv_eq_0_iff)
    show ?thesis
    proof (cases "bits x = 0")
      case True
      then show ?thesis
        by (simp add: mantissa_def round_bits_def)
    next
      case False
      then have "0 < bits x"
        using range by simp
      from round_bits_subnormal [OF this small] small range \<open>bits x div 2 ^ 52 = 0\<close>
      show ?thesis
        by (simp add: mantissa_def exponent_def)
    qed
  next
    case False
    define be where "be = bits x div 2 ^ 52"
    define f where "f = bits x mod 2 ^ 52"
    have "0 \<le> be"
      using range unfolding be_def by (simp add: pos_imp_zdiv_nonneg_iff)
    then have be: "1 \<le> be"
      using False unfolding be_def by simp
    have f: "0 \<le> f" "f < 2 ^ 52"
      by (simp_all add: f_def)
    have split: "be * 2 ^ 52 + f = bits x"
      by (simp add: be_def f_def)
    have "be * 2 ^ 52 + f \<le> inf_bits"
      using split range by simp
    from round_bits_normal [OF be f this] split
    have "round_bits ((2 ^ 52 + f) * 2 ^ 52) (be - 1075 - 52) = bits x"
      by simp
    moreover have "mantissa x = 2 ^ 52 + f"
      using False by (simp add: mantissa_def f_def)
    moreover have "exponent x = be - 1075"
      using be by (simp add: exponent_def be_def)
    ultimately show ?thesis
      by simp
  qed
qed

lemma fmul_one: "\<not> is_nan x \<Longrightarrow> fmul x float_one = x"
proof (cases "is_inf x")
  case True
  assume "\<not> is_nan x"
  moreover have "make_double (negative x) inf_bits = x"
    using True make_double_bits [of x] by (simp add: is_inf_def)
  ultimately show ?thesis
    using True by (simp add: fmul_def float_one_parts infinity_def)
next
  case False
  assume "\<not> is_nan x"
  from round_bits_exact [OF this False] show ?thesis
    using False \<open>\<not> is_nan x\<close> make_double_bits [of x]
    by (simp add: fmul_def float_one_parts)
qed

lemma round_half_even_nonneg: "0 \<le> m \<Longrightarrow> 0 \<le> round_half_even m k"
proof -
  assume "0 \<le> m"
  then have "0 \<le> m div 2 ^ k"
    by (simp add: pos_imp_zdiv_nonneg_iff)
  then show ?thesis
    by (simp add: round_half_even_def Let_def)
qed

lemma shift_round_nonneg: "0 \<le> m \<Longrightarrow> 0 \<le> shift_round m k"
  by (simp add: shift_round_def round_half_even_nonneg)

lemma round_bits_range:
  assumes "0 \<le> m"
  shows "0 \<le> round_bits m e \<and> round_bits m e \<le> inf_bits"
proof (cases "m = 0")
  case True
  then show ?thesis
    by (simp add: round_bits_def inf_bits_def)
next
  case False
  define e' where "e' = max (e + bitlen m - 53) (- 1074)"
  have rb: "round_bits m e = min ((e' + 1074) * 2 ^ 52 + shift_round m (e' - e)) inf_bits"
    using False unfolding round_bits_def e'_def Let_def by simp
  have "0 \<le> e' + 1074"
    by (simp add: e'_def)
  then have "0 \<le> (e' + 1074) * 2 ^ 52"
    by (rule mult_nonneg_nonneg) simp
  then have "0 \<le> (e' + 1074) * 2 ^ 52 + shift_round m (e' - e)"
    using shift_round_nonneg [OF assms, of "e' - e"] by simp
  moreover have "(0::int) \<le> inf_bits"
    by (simp add: inf_bits_def)
  ultimately show ?thesis
    unfolding rb by simp
qed

lemma fmul_nan: "is_nan (fmul x y) \<Longrightarrow> fmul x y = nan"
proof -
  have "0 \<le> mantissa x * mantissa y"
    by (simp add: mantissa_nonneg)
  from round_bits_range [OF this, of "exponent x + exponent y"]
  have rb: "bits (make_double sg (round_bits (mantissa x * mantissa y) (exponent x + exponent y)))
      = round_bits (mantissa x * mantissa y) (exponent x + exponent y)
    \<and> round_bits (mantissa x * mantissa y) (exponent x + exponent y) \<le> inf_bits" for sg
    by (simp add: bits_make_double inf_bits_def)
  have fin: "\<not> is_nan (make_double sg (round_bits (mantissa x * mantissa y) (exponent x + exponent y)))" for sg
    using rb [of sg] by (simp add: is_nan_def)
  have "bits (infinity sg) = inf_bits" for sg
    unfolding infinity_def by (rule bits_make_double) (simp_all add: inf_bits_def)
  then have inf: "\<not> is_nan (infinity sg)" for sg
    by (simp add: is_nan_def)
  have "fmul x y = nan \<or> (\<exists>sg. fmul x y = infinity sg)
      \<or> (\<exists>sg. fmul x y = make_double sg (round_bits (mantissa x * mantissa y) (exponent x + exponent y)))"
    unfolding fmul_def by auto
  moreover assume "is_nan (fmul x y)"
  ultimately show ?thesis
    using fin inf by metis
qed

lemma fmul_fmul_one: "fmul (fmul x y) float_one = fmul x y"
proof (cases "is_nan (fmul x y)")
  case True
  then have "fmul x y = nan"
    by (rule fmul_nan)
  then show ?thesis
    by (simp add: fmul_def is_nan_nan)
next
  case False
  then show ?thesis
    by (rule fmul_one)
qed

subsection \<open>Converting an int\<close>

lemma decode_normal:
  assumes "1 \<le> be" "be < 2047" "2 ^ 52 \<le> q" "q < 2 ^ 53"
  shows "bits (make_double sg ((be - 1) * 2 ^ 52 + q)) = (be - 1) * 2 ^ 52 + q"
    and "mantissa (make_double sg ((be - 1) * 2 ^ 52 + q)) = q"
    and "exponent (make_double sg ((be - 1) * 2 ^ 52 + q)) = be - 1075"
proof -
  define f where "f = q - 2 ^ 52"
  have f: "0 \<le> f" "f < 2 ^ 52"
    using assms by (simp_all add: f_def)
  have b: "(be - 1) * 2 ^ 52 + q = be * 2 ^ 52 + f"
    by (simp add: f_def algebra_simps)
  have "0 \<le> be * 2 ^ 52"
    using assms by simp
  then have lo: "0 \<le> be * 2 ^ 52 + f"
    using f by simp
  have "be * 2 ^ 52 \<le> 2046 * 2 ^ 52"
    using assms by simp
  then have hi: "be * 2 ^ 52 + f < 2 ^ 63"
    using f by simp
  show bits: "bits (make_double sg ((be - 1) * 2 ^ 52 + q)) = (be - 1) * 2 ^ 52 + q"
    unfolding b using lo hi by (rule bits_make_double)
  have d: "(be * 2 ^ 52 + f) div 2 ^ 52 = be"
    using f by (simp add: div_pos_pos_trivial)
  have m: "(be * 2 ^ 52 + f) mod 2 ^ 52 = f"
    using f by (simp add: mod_pos_pos_trivial)
  show "mantissa (make_double sg ((be - 1) * 2 ^ 52 + q)) = q"
    unfolding mantissa_def bits unfolding b d m using assms by (simp add: f_def)
  show "exponent (make_double sg ((be - 1) * 2 ^ 52 + q)) = be - 1075"
    unfolding exponent_def bits unfolding b d using assms by simp
qed

lemma valof_normal:
  assumes "1 \<le> be" "be < 2047" "2 ^ 52 \<le> q" "q < 2 ^ 53"
  shows "valof (make_double sg ((be - 1) * 2 ^ 52 + q))
          = (if sg then - 1 else 1) * of_int q * 2 powi (be - 1075)"
    and "\<not> is_nan (make_double sg ((be - 1) * 2 ^ 52 + q))"
    and "\<not> is_inf (make_double sg ((be - 1) * 2 ^ 52 + q))"
proof -
  note d = decode_normal [OF assms, of sg]
  have "0 \<le> (be - 1) * 2 ^ 52"
    using assms by simp
  moreover have "0 < q"
    using assms by simp
  ultimately have pos: "(be - 1) * 2 ^ 52 + q \<noteq> 0"
    by linarith
  have "(be - 1) * 2 ^ 52 \<le> 2045 * 2 ^ 52"
    using assms by simp
  then have fin: "(be - 1) * 2 ^ 52 + q < inf_bits"
    using assms by (simp add: inf_bits_def)
  show "valof (make_double sg ((be - 1) * 2 ^ 52 + q))
          = (if sg then - 1 else 1) * of_int q * 2 powi (be - 1075)"
    unfolding valof_def is_zero_def d negative_make_double using pos by simp
  show "\<not> is_nan (make_double sg ((be - 1) * 2 ^ 52 + q))"
    unfolding is_nan_def d using fin by simp
  show "\<not> is_inf (make_double sg ((be - 1) * 2 ^ 52 + q))"
    unfolding is_inf_def d using fin by simp
qed

lemma bitlen_pos: "0 < a \<Longrightarrow> 1 \<le> bitlen a"
  using bitlen_eq_zero_iff [of a] bitlen_nonneg [of a] by linarith

lemma round_bits_int_small:
  assumes "0 < a" "a < 2 ^ 53"
  shows "round_bits a 0 = (bitlen a + 1022 - 1) * 2 ^ 52 + a * 2 ^ nat (53 - bitlen a)"
    and "2 ^ 52 \<le> a * 2 ^ nat (53 - bitlen a)"
    and "a * 2 ^ nat (53 - bitlen a) < 2 ^ 53"
    and "1 \<le> bitlen a" and "bitlen a \<le> 53"
proof -
  show L1: "1 \<le> bitlen a"
    using assms by (simp add: bitlen_pos)
  show L53: "bitlen a \<le> 53"
    using assms by (simp add: bitlen_le_iff_power)
  define n where "n = nat (bitlen a - 1)"
  define d where "d = nat (53 - bitlen a)"
  have nd: "n + d = 52" "nat (bitlen a) = Suc n"
    using L1 L53 by (simp_all add: n_def d_def)
  have lo: "2 ^ n \<le> a" and hi: "a < 2 ^ Suc n"
    using bitlen_bounds [OF assms(1)] nd by (simp_all add: n_def)
  have "(2::int) ^ n * 2 ^ d \<le> a * 2 ^ d"
    using lo by (simp add: mult_right_mono)
  moreover have "(2::int) ^ n * 2 ^ d = 2 ^ 52"
    unfolding power_add [symmetric] nd ..
  ultimately show q_lo: "2 ^ 52 \<le> a * 2 ^ nat (53 - bitlen a)"
    unfolding d_def by simp
  have lt: "a * 2 ^ d < (2::int) ^ Suc n * 2 ^ d"
    using hi by (simp only: mult_strict_right_mono zero_less_power zero_less_numeral)
  have "Suc n + d = 53"
    using nd by simp
  then have eq: "(2::int) ^ Suc n * 2 ^ d = 2 ^ 53"
    unfolding power_add [symmetric] by simp
  have "a * 2 ^ d < 2 ^ 53"
    using lt unfolding eq .
  then show q_hi: "a * 2 ^ nat (53 - bitlen a) < 2 ^ 53"
    unfolding d_def .
  have e': "max (0 + bitlen a - 53) (- 1074) = bitlen a - 53"
    using L1 by simp
  have sr: "shift_round a (bitlen a - 53 - 0) = a * 2 ^ nat (53 - bitlen a)"
    using L53 by (simp add: shift_round_def)
  have "(bitlen a - 53 + 1074) * 2 ^ 52 \<le> 1074 * 2 ^ 52"
    using L53 by simp
  then have "(bitlen a - 53 + 1074) * 2 ^ 52 + a * 2 ^ nat (53 - bitlen a) \<le> inf_bits"
    using q_hi by (simp add: inf_bits_def)
  then show "round_bits a 0 = (bitlen a + 1022 - 1) * 2 ^ 52 + a * 2 ^ nat (53 - bitlen a)"
    using assms unfolding round_bits_def Let_def e' sr by simp
qed

lemma float_of_int_zero: "float_of_int 0 = float_zero"
  by (simp add: float_of_int_def round_bits_def float_zero_def)

lemma valof_float_of_int_small:
  assumes "\<bar>n\<bar> < 2 ^ 53"
  shows "valof (float_of_int n) = of_int n"
    and "\<not> is_nan (float_of_int n)" and "\<not> is_inf (float_of_int n)"
proof -
  have "valof (float_of_int n) = of_int n \<and> \<not> is_nan (float_of_int n)
      \<and> \<not> is_inf (float_of_int n)"
  proof (cases "n = 0")
    case True
    then show ?thesis
      by (simp add: float_of_int_zero float_zero_parts)
  next
    case False
    define a where "a = \<bar>n\<bar>"
    have a: "0 < a" "a < 2 ^ 53"
      using False assms by (simp_all add: a_def)
    note r = round_bits_int_small [OF a]
    define be where "be = bitlen a + 1022"
    define d where "d = nat (53 - bitlen a)"
    define q where "q = a * 2 ^ d"
    have be: "1 \<le> be" "be < 2047"
      using r(4,5) by (simp_all add: be_def)
    have q: "2 ^ 52 \<le> q" "q < 2 ^ 53"
      using r(2,3) by (simp_all add: q_def d_def)
    have fl: "float_of_int n = make_double (n < 0) ((be - 1) * 2 ^ 52 + q)"
      unfolding float_of_int_def a_def [symmetric] r(1) be_def q_def d_def ..
    have v: "valof (float_of_int n) = (if n < 0 then - 1 else 1) * of_int q * 2 powi (be - 1075)"
      unfolding fl using valof_normal(1) [OF be q] .
    have e: "be - 1075 = - int d"
      using r(5) by (simp add: be_def d_def)
    have "(2::real) powi (be - 1075) = inverse (2 ^ d)"
      unfolding e by (simp add: power_int_minus)
    then have "of_int q * 2 powi (be - 1075) = (of_int a :: real)"
      by (simp add: q_def)
    then have "valof (float_of_int n) = (if n < 0 then - 1 else 1) * (of_int a :: real)"
      unfolding v by (simp add: mult.assoc)
    then have "valof (float_of_int n) = of_int n"
      by (simp add: a_def)
    then show ?thesis
      unfolding fl using valof_normal(2,3) [OF be q] by simp
  qed
  then show "valof (float_of_int n) = of_int n"
    and "\<not> is_nan (float_of_int n)" and "\<not> is_inf (float_of_int n)"
    by simp_all
qed

lemma div_pow_lower:
  assumes "(c::int) * 2 ^ k \<le> a"
  shows "c \<le> a div 2 ^ k"
proof -
  have "(c * 2 ^ k) div 2 ^ k \<le> a div 2 ^ k"
    using assms by (rule zdiv_mono1) simp
  then show ?thesis
    by simp
qed

lemma div_pow_upper:
  assumes "(a::int) < c * 2 ^ k"
  shows "a div 2 ^ k < c"
proof -
  have "0 \<le> a mod 2 ^ k"
    by simp
  then have "a div 2 ^ k * 2 ^ k \<le> a"
    using div_mult_mod_eq [of a "2 ^ k"] by linarith
  then have "a div 2 ^ k * 2 ^ k < c * 2 ^ k"
    using assms by linarith
  then show ?thesis
    by (simp add: mult_less_cancel_right)
qed

lemma round_half_even_bounds:
  assumes "lo * 2 ^ k \<le> a" "a < hi * 2 ^ k"
  shows "lo \<le> round_half_even a k" "round_half_even a k \<le> hi"
proof -
  have "lo \<le> a div 2 ^ k" "a div 2 ^ k < hi"
    using assms by (simp_all add: div_pow_lower div_pow_upper)
  then show "lo \<le> round_half_even a k" "round_half_even a k \<le> hi"
    by (simp_all add: round_half_even_def Let_def)
qed

lemma round_bits_int_big:
  assumes "2 ^ 53 \<le> a"
  shows "\<exists>sr. 2 ^ 52 \<le> sr \<and> sr \<le> 2 ^ 53
           \<and> round_bits a 0 = min ((bitlen a - 53 + 1074) * 2 ^ 52 + sr) inf_bits"
proof -
  have pos: "0 < a"
    using assms(1) by simp
  have L54: "54 \<le> bitlen a"
    using assms(1) by (simp add: bitlen_ge_iff_power)
  define k where "k = nat (bitlen a - 53)"
  have n: "nat (bitlen a - 1) = 52 + k" "nat (bitlen a) = 53 + k"
    using L54 by (simp_all add: k_def)
  have lo: "2 ^ 52 * 2 ^ k \<le> a" and hi: "a < 2 ^ 53 * 2 ^ k"
    using bitlen_bounds [OF pos] unfolding n by (simp_all add: power_add)
  define sr where "sr = round_half_even a k"
  have sr: "2 ^ 52 \<le> sr" "sr \<le> 2 ^ 53"
    unfolding sr_def using round_half_even_bounds [OF lo hi] by simp_all
  have e': "max (0 + bitlen a - 53) (- 1074) = bitlen a - 53"
    using L54 by simp
  have shift: "shift_round a (bitlen a - 53 - 0) = sr"
    using L54 by (simp add: shift_round_def sr_def k_def)
  have "round_bits a 0 = min ((bitlen a - 53 + 1074) * 2 ^ 52 + sr) inf_bits"
    using pos unfolding round_bits_def Let_def e' shift by simp
  with sr show ?thesis
    by blast
qed

lemma round_bits_int_large:
  assumes "2 ^ 53 \<le> a" "round_bits a 0 \<noteq> inf_bits"
  shows "\<exists>be q. 1076 \<le> be \<and> be < 2047 \<and> 2 ^ 52 \<le> q \<and> q < 2 ^ 53
           \<and> round_bits a 0 = (be - 1) * 2 ^ 52 + q"
proof -
  have pos: "0 < a"
    using assms(1) by simp
  have L54: "54 \<le> bitlen a"
    using assms(1) by (simp add: bitlen_ge_iff_power)
  define k where "k = nat (bitlen a - 53)"
  have k: "1 \<le> k" "int k = bitlen a - 53"
    using L54 by (simp_all add: k_def)
  have n: "nat (bitlen a - 1) = 52 + k" "nat (bitlen a) = 53 + k"
    using L54 by (simp_all add: k_def)
  have lo: "2 ^ 52 * 2 ^ k \<le> a" and hi: "a < 2 ^ 53 * 2 ^ k"
    using bitlen_bounds [OF pos] unfolding n by (simp_all add: power_add)
  define sr where "sr = round_half_even a k"
  have sr: "2 ^ 52 \<le> sr" "sr \<le> 2 ^ 53"
    unfolding sr_def using round_half_even_bounds [OF lo hi] by simp_all
  have e': "max (0 + bitlen a - 53) (- 1074) = bitlen a - 53"
    using L54 by simp
  have shift: "shift_round a (bitlen a - 53 - 0) = sr"
    using L54 by (simp add: shift_round_def sr_def k_def)
  have rb: "round_bits a 0 = min ((bitlen a - 53 + 1074) * 2 ^ 52 + sr) inf_bits"
    using pos unfolding round_bits_def Let_def e' shift by simp
  then have B: "round_bits a 0 = (bitlen a - 53 + 1074) * 2 ^ 52 + sr"
    and fin: "(bitlen a - 53 + 1074) * 2 ^ 52 + sr < inf_bits"
    using assms(2) by (simp_all add: min_def split: if_splits)
  show ?thesis
  proof (cases "sr = 2 ^ 53")
    case False
    define be where "be = bitlen a + 1022"
    have "(be - 1) * 2 ^ 52 + sr = (bitlen a - 53 + 1074) * 2 ^ 52 + sr"
      by (simp add: be_def)
    moreover have "be * 2 ^ 52 \<le> (be - 1) * 2 ^ 52 + sr"
      using sr by (simp add: algebra_simps)
    then have "be * 2 ^ 52 < 2047 * 2 ^ 52"
      using fin calculation by (simp add: inf_bits_def)
    then have "be < 2047"
      by simp
    moreover have "1076 \<le> be"
      using L54 by (simp add: be_def)
    moreover have "sr < 2 ^ 53"
      using sr False by simp
    ultimately show ?thesis
      using sr B by metis
  next
    case True
    define be where "be = bitlen a + 1023"
    have eq: "(be - 1) * 2 ^ 52 + 2 ^ 52 = (bitlen a - 53 + 1074) * 2 ^ 52 + sr"
      by (simp add: be_def True algebra_simps)
    have "be * 2 ^ 52 = (be - 1) * 2 ^ 52 + 2 ^ 52"
      by (simp add: algebra_simps)
    then have "be * 2 ^ 52 < 2047 * 2 ^ 52"
      using fin eq by (simp add: inf_bits_def)
    then have "be < 2047"
      by simp
    moreover have "1076 \<le> be"
      using L54 by (simp add: be_def)
    moreover have "round_bits a 0 = (be - 1) * 2 ^ 52 + 2 ^ 52"
      using B eq by simp
    moreover have "(2::int) ^ 52 \<le> 2 ^ 52" "(2::int) ^ 52 < 2 ^ 53"
      by simp_all
    ultimately show ?thesis
      by metis
  qed
qed

lemma powi_ge: "1 \<le> e \<Longrightarrow> (2::real) \<le> 2 powi e"
  by (metis power_int_1_right power_int_increasing one_le_numeral)

lemma valof_float_of_int_large:
  assumes "2 ^ 53 \<le> \<bar>n\<bar>" "\<not> is_inf (float_of_int n)"
  shows "\<not> is_nan (float_of_int n)"
    and "0 < n \<longrightarrow> 2 ^ 53 \<le> valof (float_of_int n)"
    and "n < 0 \<longrightarrow> valof (float_of_int n) \<le> - (2 ^ 53)"
proof -
  have "round_bits \<bar>n\<bar> 0 \<noteq> inf_bits"
    using assms(2) is_inf_make_double [of "n < 0"] by (auto simp add: float_of_int_def)
  from round_bits_int_large [OF assms(1) this]
  obtain be q where be: "1076 \<le> be" "be < 2047" and q: "2 ^ 52 \<le> q" "q < 2 ^ 53"
    and rb: "round_bits \<bar>n\<bar> 0 = (be - 1) * 2 ^ 52 + q"
    by blast
  have be1: "1 \<le> be"
    using be by simp
  have fl: "float_of_int n = make_double (n < 0) ((be - 1) * 2 ^ 52 + q)"
    unfolding float_of_int_def rb ..
  note v = valof_normal [OF be1 be(2) q, of "n < 0"]
  show "\<not> is_nan (float_of_int n)"
    unfolding fl by (rule v(2))
  have "(2::real) \<le> 2 powi (be - 1075)"
    using be by (simp add: powi_ge)
  moreover have "(2::real) ^ 52 \<le> of_int q"
    using q(1) by (metis of_int_le_iff of_int_numeral of_int_power)
  ultimately have "(2::real) ^ 52 * 2 \<le> of_int q * 2 powi (be - 1075)"
    by (intro mult_mono) simp_all
  then have big: "(2::real) ^ 53 \<le> of_int q * 2 powi (be - 1075)"
    by simp
  show "0 < n \<longrightarrow> 2 ^ 53 \<le> valof (float_of_int n)"
    unfolding fl v(1) using big by simp
  show "n < 0 \<longrightarrow> valof (float_of_int n) \<le> - (2 ^ 53)"
    unfolding fl v(1) using big by simp
qed

lemma int_to_double_overflow:
  assumes "2 ^ 1024 \<le> \<bar>n\<bar>"
  shows "int_to_double n = Inl OverflowError"
proof -
  have "(2::int) ^ 53 \<le> 2 ^ 1024"
    by simp
  then have "2 ^ 53 \<le> \<bar>n\<bar>"
    using assms by linarith
  from round_bits_int_big [OF this] obtain sr where sr: "2 ^ 52 \<le> sr"
    and rb: "round_bits \<bar>n\<bar> 0 = min ((bitlen \<bar>n\<bar> - 53 + 1074) * 2 ^ 52 + sr) inf_bits"
    by blast
  have "1025 \<le> bitlen \<bar>n\<bar>"
    using assms by (simp add: bitlen_ge_iff_power)
  then have "2046 * 2 ^ 52 \<le> (bitlen \<bar>n\<bar> - 53 + 1074) * 2 ^ 52"
    by simp
  then have "inf_bits \<le> (bitlen \<bar>n\<bar> - 53 + 1074) * 2 ^ 52 + sr"
    using sr by (simp add: inf_bits_def)
  then have "round_bits \<bar>n\<bar> 0 = inf_bits"
    unfolding rb by simp
  then show ?thesis
    by (simp add: int_to_double_def float_of_int_def is_inf_make_double)
qed

lemma float_of_int_one: "float_of_int 1 = float_one"
  by code_simp

lemma not_inf_float_one: "\<not> is_inf float_one"
  by (simp add: float_one_parts)

lemma small_int_not_nan: "\<bar>n\<bar> < 2 ^ 53 \<Longrightarrow> \<not> is_nan (float_of_int n)"
  using valof_float_of_int_small [of n] by simp

lemma int_to_double_small: "\<bar>n\<bar> < 2 ^ 53 \<Longrightarrow> int_to_double n = Inr (float_of_int n)"
  using valof_float_of_int_small [of n] by (simp add: int_to_double_def)

section \<open>Numbers: values and comparisons\<close>

lemma less_extended_irrefl: "\<not> less_extended u u"
  by (cases u) simp_all

lemma value_of_PyInt: "value_of (PyInt n) = Some (Number (of_int n))"
  by simp

lemma value_of_float_zero: "value_of (PyFloat float_zero) = Some (Number 0)"
  by (simp add: float_zero_parts)

lemma value_of_small_int:
  "\<bar>n\<bar> < 2 ^ 53 \<Longrightarrow> value_of (PyFloat (float_of_int n)) = Some (Number (of_int n))"
  using valof_float_of_int_small [of n] by (simp add: value_of.simps)

lemma value_of_640: "value_of (PyFloat (float_of_int 640)) = Some (Number 640)"
proof -
  have "\<bar>640::int\<bar> < 2 ^ 53"
    by simp
  from valof_float_of_int_small [OF this]
  have "valof (float_of_int 640) = 640" "\<not> is_nan (float_of_int 640)"
    "\<not> is_inf (float_of_int 640)"
    by simp_all
  then show ?thesis
    by (simp add: value_of.simps)
qed

lemma value_of_nan: "value_of (PyFloat nan) = None"
  by (simp add: value_of.simps is_nan_nan)

lemma int_to_double_value:
  assumes "int_to_double n = Inr x"
  shows "\<exists>v. value_of (PyFloat x) = Some (Number v)
           \<and> (\<bar>n\<bar> < 2 ^ 53 \<longrightarrow> v = of_int n)
           \<and> (0 < n \<and> 2 ^ 53 \<le> \<bar>n\<bar> \<longrightarrow> 2 ^ 53 \<le> v)
           \<and> (n < 0 \<and> 2 ^ 53 \<le> \<bar>n\<bar> \<longrightarrow> v \<le> - (2 ^ 53))"
proof -
  have x: "x = float_of_int n" and fin: "\<not> is_inf (float_of_int n)"
    using assms by (simp_all add: int_to_double_def split: if_splits)
  show ?thesis
  proof (cases "\<bar>n\<bar> < 2 ^ 53")
    case True
    from valof_float_of_int_small [OF True] True show ?thesis
      unfolding x by (simp add: value_of.simps)
  next
    case False
    then have "2 ^ 53 \<le> \<bar>n\<bar>"
      by simp
    from valof_float_of_int_large [OF this fin] False fin show ?thesis
      unfolding x by (simp add: value_of.simps)
  qed
qed

lemma int_to_double_not_nan: "int_to_double n = Inr x \<Longrightarrow> \<not> is_nan x"
  using int_to_double_value [of n x] by (auto simp add: value_of.simps split: if_splits)

declare value_of.simps [simp del]

lemma py_le_iff: "\<not> py_isnan a \<Longrightarrow> \<not> py_isnan b \<Longrightarrow> py_le a b \<longleftrightarrow> \<not> py_lt b a"
  by (auto simp add: py_isnan_def py_le_def py_lt_def)

lemma py_le_not_nan: "py_le a b \<Longrightarrow> \<not> py_isnan a \<and> \<not> py_isnan b"
  by (auto simp add: py_isnan_def py_le_def split: option.splits)

lemma py_eq_value: "py_eq a b \<Longrightarrow> value_of a = value_of b"
  by (auto simp add: py_eq_def split: option.splits)

lemma py_eq_refl: "\<not> py_isnan a \<Longrightarrow> py_eq a a"
  by (auto simp add: py_isnan_def py_eq_def)

lemma py_lt_irrefl: "\<not> py_lt a a"
  by (simp add: py_lt_def less_extended_irrefl split: option.split)

lemma float_zero_not_nan: "\<not> py_isnan (PyFloat float_zero)"
  by (simp add: py_isnan_def value_of_float_zero)

lemma py_mul_float_result:
  "py_mul p c = Inr (PyFloat x) \<Longrightarrow> fmul x float_one = x"
  by (cases p; cases c) (auto simp add: fmul_fmul_one split: sum.splits)

lemma py_mul_one:
  assumes "py_mul p c = Inr q"
  shows "py_mul q (PyInt 1) = Inr q"
proof (cases q)
  case (PyInt k)
  then show ?thesis by simp
next
  case (PyFloat x)
  with assms have "fmul x float_one = x"
    by (simp add: py_mul_float_result)
  with PyFloat show ?thesis
    by (simp add: int_to_double_def float_of_int_one not_inf_float_one)
qed

lemma py_mul_float_one:
  assumes "py_mul p c = Inr (PyFloat x)"
  shows "py_mul (PyFloat x) (PyFloat float_one) = Inr (PyFloat x)"
  using assms by (simp add: py_mul_float_result)

lemma mul_float_one:
  "\<not> is_nan x \<Longrightarrow> py_mul (PyFloat x) (PyFloat float_one) = Inr (PyFloat x)"
  by (simp add: fmul_one)

lemmas value_simps =
  py_le_def py_lt_def py_gt_def py_eq_def py_isnan_def value_of_small_int value_of_float_zero
  value_of_nan value_of_PyInt negative_zero_parts(4)

lemma small_int_floats_differ:
  assumes "\<bar>a\<bar> < 2 ^ 53" "\<bar>b\<bar> < 2 ^ 53" "a \<noteq> b"
  shows "PyFloat (float_of_int a) \<noteq> PyFloat (float_of_int b)"
proof
  assume "PyFloat (float_of_int a) = PyFloat (float_of_int b)"
  then have "value_of (PyFloat (float_of_int a)) = value_of (PyFloat (float_of_int b))"
    by simp
  then show False
    using assms by (simp add: value_of_small_int)
qed

lemma small_int_float_not_zero:
  assumes "\<bar>a\<bar> < 2 ^ 53" "a \<noteq> 0"
  shows "PyFloat (float_of_int a) \<noteq> PyFloat float_zero"
  using small_int_floats_differ [OF assms(1) _ assms(2)] by (simp add: float_of_int_zero)

lemma nan_not_zero: "PyFloat nan \<noteq> PyFloat float_zero"
  using is_nan_nan float_zero_parts(3) by auto

lemma negative_zero_not_zero: "PyFloat negative_zero \<noteq> PyFloat float_zero"
  using negative_zero_parts(2) negative_make_double [of False 0]
  by (auto simp add: float_zero_def)

lemma huge_int_large: "640 < huge_int" "\<not> huge_int \<le> 640"
  by (simp_all add: huge_int_def)

subsection \<open>Products evaluated\<close>

lemma mul_213_3:
  "py_mul (PyFloat float_213) (PyFloat (float_of_int 3)) = Inr (PyFloat (float_of_int 640))"
  by code_simp

lemma mul_800_3:
  "py_mul (PyFloat (float_of_int 800)) (PyFloat (float_of_int 3)) = Inr (PyFloat (float_of_int 2400))"
  by code_simp

lemma mul_200_2:
  "py_mul (PyFloat (float_of_int 200)) (PyFloat (float_of_int 2)) = Inr (PyFloat (float_of_int 400))"
  by code_simp

lemma mul_320_2:
  "py_mul (PyFloat (float_of_int 320)) (PyFloat (float_of_int 2)) = Inr (PyFloat (float_of_int 640))"
  by code_simp

lemma mul_nan: "py_mul (PyFloat nan) (PyFloat float_one) = Inr (PyFloat nan)"
  by (simp add: fmul_def is_nan_nan)

lemma mul_zero_infinity:
  "py_mul (PyFloat float_zero) (PyFloat (infinity False)) = Inr (PyFloat nan)"
  using is_inf_make_double [of False]
  by (simp add: fmul_def float_zero_parts infinity_def)

lemma mul_overflow: "py_mul (PyInt huge_int) (PyFloat float_one) = Inl OverflowError"
  by (simp add: int_to_double_overflow huge_int_def)

section \<open>The value and the state of the centroid function\<close>

lemma centroid_from_motor_value:
  "fst (centroid_from_motor get_position motor size' scale' s) =
     (case py_mul (fst (get_position (motor_of motor s))) scale' of
        Inl err \<Rightarrow> Inl err
      | Inr centroid \<Rightarrow>
          if py_lt centroid (PyFloat float_zero) \<or> py_gt centroid size'
          then Inr (PyFloat float_zero) else Inr centroid)"
  by (simp add: centroid_from_motor_def split: prod.split sum.split)

lemma centroid_from_motor_state:
  "snd (centroid_from_motor get_position motor size' scale' s) =
     put_motor motor (snd (get_position (motor_of motor s))) s"
  by (simp add: centroid_from_motor_def split: prod.split sum.split)

lemma centroid_from_motor_log:
  "fst (centroid_from_motor get_position motor size' scale' (s\<lparr>triggered := l\<rparr>)) =
     fst (centroid_from_motor get_position motor size' scale' s)"
  by (cases motor) (simp_all add: centroid_from_motor_value)

lemma centroid_from_motor_nan_product:
  assumes "py_mul (fst (get_position (motor_of motor s))) scale' = Inr centroid"
    and "py_isnan centroid"
  shows "fst (centroid_from_motor get_position motor size' scale' s) = Inr centroid"
  using assms
  by (simp add: centroid_from_motor_value py_gt_def py_lt_def py_isnan_def split: option.split)

lemma centroid_from_motor_raises:
  assumes "py_mul (fst (get_position (motor_of motor s))) scale' = Inl err"
  shows "fst (centroid_from_motor get_position motor size' scale' s) = Inl err"
  using assms by (simp add: centroid_from_motor_value)

lemma partial_value_float:
  assumes "\<not> is_nan x" "fst (get_position (motor_of motor s)) = PyFloat x"
  shows "fst (partial_centroid_from_motor get_position motor s) =
           (if py_lt (PyFloat x) (PyFloat float_zero) \<or> py_gt (PyFloat x) (PyFloat (float_of_int 640))
            then Inr (PyFloat float_zero) else Inr (PyFloat x))"
  using assms by (simp add: partial_centroid_from_motor_def centroid_from_motor_value fmul_one)

lemma partial_value_int:
  assumes "int_to_double n = Inr x" "fst (get_position (motor_of motor s)) = PyInt n"
  shows "fst (partial_centroid_from_motor get_position motor s) =
           (if py_lt (PyFloat x) (PyFloat float_zero) \<or> py_gt (PyFloat x) (PyFloat (float_of_int 640))
            then Inr (PyFloat float_zero) else Inr (PyFloat x))"
  using assms int_to_double_not_nan [OF assms(1)]
  by (simp add: partial_centroid_from_motor_def centroid_from_motor_value fmul_one)

lemma partial_value_cong:
  "fst (get_position (motor_of motor s_a)) = fst (get_position (motor_of motor s_b)) \<Longrightarrow>
     fst (partial_centroid_from_motor get_position motor s_a) =
     fst (partial_centroid_from_motor get_position motor s_b)"
  by (simp add: partial_centroid_from_motor_def centroid_from_motor_value)

lemma partial_on_screen:
  assumes "0 \<le> k" "k \<le> 640"
    and "fst (get_position (motor_of motor s)) = PyFloat (float_of_int k)"
  shows "fst (partial_centroid_from_motor get_position motor s) = Inr (PyFloat (float_of_int k))"
proof -
  have small: "\<bar>k\<bar> < 2 ^ 53"
    using assms(1,2) by simp
  from partial_value_float [where get_position = get_position and motor = motor and s = s,
      OF small_int_not_nan [OF small] assms(3)] assms(1,2) small
  show ?thesis
    by (simp add: value_simps)
qed

lemma position_axes_at:
  "fst (stored_position (motor_of X (axes_at a b))) = a"
  "fst (stored_position (motor_of Y (axes_at a b))) = b"
  "fst (stored_position (motor_x (axes_at a b))) = a"
  "fst (stored_position (motor_y (axes_at a b))) = b"
  by (simp_all add: stored_position_def axes_at_def)

lemma position_caching_axes_at:
  "fst (caching_position (motor_of X (axes_at a b))) = a"
  "fst (caching_position (motor_of Y (axes_at a b))) = b"
  by (simp_all add: caching_position_def axes_at_def)

lemma partial_axes_at_on_screen:
  assumes "0 \<le> i" "i \<le> 640" "0 \<le> j" "j \<le> 640"
  shows "fst (partial_centroid_from_motor stored_position X
            (axes_at (PyFloat (float_of_int i)) (PyFloat (float_of_int j))))
           = Inr (PyFloat (float_of_int i))"
    and "fst (partial_centroid_from_motor stored_position Y
            (axes_at (PyFloat (float_of_int i)) (PyFloat (float_of_int j))))
           = Inr (PyFloat (float_of_int j))"
  using assms by (simp_all add: partial_on_screen position_axes_at)

lemma partial_axes_at_overflow:
  "fst (partial_centroid_from_motor stored_position X (axes_at (PyInt huge_int) b))
     = Inl OverflowError"
  unfolding partial_centroid_from_motor_def
  by (rule centroid_from_motor_raises) (simp only: position_axes_at mul_overflow)

section \<open>The trigger of the detector\<close>

lemma SynSignal_trigger_partial:
  "SynSignal_trigger (partial_centroid_from_motor get_position motor) sig s =
     (case fst (partial_centroid_from_motor get_position motor s) of
        Inl err \<Rightarrow>
          (Inl err, sig,
           put_motor motor (snd (get_position (motor_of motor s)))
             (s\<lparr>triggered := triggered s @ [name sig]\<rparr>))
      | Inr v \<Rightarrow>
          (Inr (), sig\<lparr>readback := v\<rparr>,
           put_motor motor (snd (get_position (motor_of motor s)))
             (s\<lparr>triggered := triggered s @ [name sig]\<rparr>)))"
proof -
  let ?s = "s\<lparr>triggered := triggered s @ [name sig]\<rparr>"
  have "fst (partial_centroid_from_motor get_position motor ?s) =
      fst (partial_centroid_from_motor get_position motor s)"
    by (simp add: partial_centroid_from_motor_def centroid_from_motor_log)
  moreover have "snd (partial_centroid_from_motor get_position motor ?s) =
      put_motor motor (snd (get_position (motor_of motor s))) ?s"
    by (cases motor) (simp_all add: partial_centroid_from_motor_def centroid_from_motor_state)
  ultimately have "partial_centroid_from_motor get_position motor ?s =
      (fst (partial_centroid_from_motor get_position motor s),
       put_motor motor (snd (get_position (motor_of motor s))) ?s)"
    by (simp add: prod_eq_iff)
  then show ?thesis
    by (simp add: SynSignal_trigger_def split: sum.split)
qed

lemma Imager_trigger_cases:
  "Imager_trigger get_position super_trigger self s =
     (case fst (partial_centroid_from_motor get_position X s) of
        Inl err \<Rightarrow>
          (Inl err, self,
           s\<lparr>motor_x := snd (get_position (motor_x s)),
             triggered := triggered s @ [name (x_centroid self)]\<rparr>)
      | Inr vx \<Rightarrow>
          (case fst (partial_centroid_from_motor get_position Y s) of
             Inl err \<Rightarrow>
               (Inl err, self\<lparr>x_centroid := (x_centroid self)\<lparr>readback := vx\<rparr>\<rparr>,
                s\<lparr>motor_x := snd (get_position (motor_x s)),
                  motor_y := snd (get_position (motor_y s)),
                  triggered := triggered s @ [name (x_centroid self), name (y_centroid self)]\<rparr>)
           | Inr vy \<Rightarrow>
               super_trigger
                 (self\<lparr>x_centroid := (x_centroid self)\<lparr>readback := vx\<rparr>,
                       y_centroid := (y_centroid self)\<lparr>readback := vy\<rparr>\<rparr>)
                 (s\<lparr>motor_x := snd (get_position (motor_x s)),
                    motor_y := snd (get_position (motor_y s)),
                    triggered := triggered s @ [name (x_centroid self), name (y_centroid self)]\<rparr>)))"
  unfolding Imager_trigger_def x_centroid_func_def y_centroid_func_def SynSignal_trigger_partial
  by (cases s)
    (simp add: partial_centroid_from_motor_def centroid_from_motor_value split: sum.split)

section \<open>The centroid as a function of the position\<close>

text \<open>
  Claim C1, as amended: for every position, size and scale for which the product of
  position and scale is computed, and neither the product nor the size is NaN, the
  function returns the product when it lies in the closed interval from 0 to the size,
  and 0.0 when it lies outside. The product is the one the code computes, rounded.
\<close>

theorem centroid_from_motor_clamped:
  assumes "py_mul (fst (get_position (motor_of motor s))) scale' = Inr centroid"
    and "\<not> py_isnan centroid" and "\<not> py_isnan size'"
  shows "(py_le (PyFloat float_zero) centroid \<and> py_le centroid size'
            \<longrightarrow> fst (centroid_from_motor get_position motor size' scale' s) = Inr centroid)
       \<and> (\<not> (py_le (PyFloat float_zero) centroid \<and> py_le centroid size')
            \<longrightarrow> fst (centroid_from_motor get_position motor size' scale' s)
                  = Inr (PyFloat float_zero))"
  using assms
  by (simp add: centroid_from_motor_value py_le_iff float_zero_not_nan py_gt_def)

theorem centroid_from_motor_clamped_witness:
  "py_mul (fst (stored_position (motor_of X (axes_at (PyFloat float_213) (PyFloat (float_of_int 800))))))
      (PyFloat (float_of_int 3)) = Inr (PyFloat (float_of_int 640))
   \<and> py_le (PyFloat float_zero) (PyFloat (float_of_int 640))
   \<and> py_le (PyFloat (float_of_int 640)) (PyFloat (float_of_int 640))
   \<and> fst (centroid_from_motor stored_position X (PyFloat (float_of_int 640)) (PyFloat (float_of_int 3))
        (axes_at (PyFloat float_213) (PyFloat (float_of_int 800)))) = Inr (PyFloat (float_of_int 640))
   \<and> py_mul (fst (stored_position (motor_of Y (axes_at (PyFloat float_213) (PyFloat (float_of_int 800))))))
      (PyFloat (float_of_int 3)) = Inr (PyFloat (float_of_int 2400))
   \<and> \<not> py_le (PyFloat (float_of_int 2400)) (PyFloat (float_of_int 640))
   \<and> fst (centroid_from_motor stored_position Y (PyFloat (float_of_int 640)) (PyFloat (float_of_int 3))
        (axes_at (PyFloat float_213) (PyFloat (float_of_int 800)))) = Inr (PyFloat float_zero)"
proof -
  let ?s = "axes_at (PyFloat float_213) (PyFloat (float_of_int 800))"
  have x: "py_mul (fst (stored_position (motor_of X ?s))) (PyFloat (float_of_int 3))
      = Inr (PyFloat (float_of_int 640))"
    by (simp only: position_axes_at mul_213_3)
  have y: "py_mul (fst (stored_position (motor_of Y ?s))) (PyFloat (float_of_int 3))
      = Inr (PyFloat (float_of_int 2400))"
    by (simp only: position_axes_at mul_800_3)
  have n640: "\<not> py_isnan (PyFloat (float_of_int 640))"
    and n2400: "\<not> py_isnan (PyFloat (float_of_int 2400))"
    by (simp_all add: value_simps)
  have cmp: "py_le (PyFloat float_zero) (PyFloat (float_of_int 640))"
    "py_le (PyFloat (float_of_int 640)) (PyFloat (float_of_int 640))"
    "\<not> py_le (PyFloat (float_of_int 2400)) (PyFloat (float_of_int 640))"
    by (simp_all add: value_simps)
  from cmp x y
    centroid_from_motor_clamped [where get_position = stored_position and motor = X and s = ?s,
      OF x n640 n640]
    centroid_from_motor_clamped [where get_position = stored_position and motor = Y and s = ?s,
      OF y n2400 n640]
  show ?thesis
    by blast
qed

text \<open>
  Claim C1 as it was stated, for every position, size and scale, fails in three cases.
  At a position that is NaN the product is NaN, which lies in no interval, both
  comparisons of the test are false, and the function returns the NaN and not 0. At a
  size that is NaN and position 5 the product 5 is not in the interval, the test
  \<^verbatim>\<open>centroid > size\<close> is false, and the function returns 5 and not 0. At an int
  position too large for a float the product raises \<^verbatim>\<open>OverflowError\<close> and nothing
  is returned.
\<close>

theorem centroid_from_motor_nan:
  "py_mul (fst (stored_position (motor_of X (axes_at (PyFloat nan) (PyFloat (float_of_int 5))))))
      (PyFloat float_one) = Inr (PyFloat nan)
   \<and> \<not> (py_le (PyFloat float_zero) (PyFloat nan) \<and> py_le (PyFloat nan) (PyFloat (float_of_int 640)))
   \<and> fst (centroid_from_motor stored_position X (PyFloat (float_of_int 640)) (PyFloat float_one)
        (axes_at (PyFloat nan) (PyFloat (float_of_int 5)))) = Inr (PyFloat nan)
   \<and> PyFloat nan \<noteq> PyFloat float_zero
   \<and> \<not> py_eq (PyFloat nan) (PyFloat float_zero)
   \<and> py_mul (fst (stored_position (motor_of Y (axes_at (PyFloat nan) (PyFloat (float_of_int 5))))))
      (PyFloat float_one) = Inr (PyFloat (float_of_int 5))
   \<and> \<not> (py_le (PyFloat float_zero) (PyFloat (float_of_int 5))
          \<and> py_le (PyFloat (float_of_int 5)) (PyFloat nan))
   \<and> fst (centroid_from_motor stored_position Y (PyFloat nan) (PyFloat float_one)
        (axes_at (PyFloat nan) (PyFloat (float_of_int 5)))) = Inr (PyFloat (float_of_int 5))
   \<and> \<not> py_eq (PyFloat (float_of_int 5)) (PyFloat float_zero)
   \<and> fst (centroid_from_motor stored_position X (PyFloat (float_of_int 640)) (PyFloat float_one)
        (axes_at (PyInt huge_int) (PyFloat (float_of_int 5)))) = Inl OverflowError"
proof -
  let ?s = "axes_at (PyFloat nan) (PyFloat (float_of_int 5))"
  let ?t = "axes_at (PyInt huge_int) (PyFloat (float_of_int 5))"
  have x: "py_mul (fst (stored_position (motor_of X ?s))) (PyFloat float_one) = Inr (PyFloat nan)"
    by (simp only: position_axes_at mul_nan)
  have n5: "\<not> is_nan (float_of_int 5)"
    by (rule small_int_not_nan) simp
  have y: "py_mul (fst (stored_position (motor_of Y ?s))) (PyFloat float_one)
      = Inr (PyFloat (float_of_int 5))"
    by (simp only: position_axes_at mul_float_one [OF n5])
  have huge: "py_mul (fst (stored_position (motor_of X ?t))) (PyFloat float_one) = Inl OverflowError"
    by (simp only: position_axes_at mul_overflow)
  have ynan: "fst (centroid_from_motor stored_position Y (PyFloat nan) (PyFloat float_one) ?s)
      = Inr (PyFloat (float_of_int 5))"
    unfolding centroid_from_motor_value y by (simp add: value_simps)
  have "py_isnan (PyFloat nan)"
    by (simp add: value_simps)
  from centroid_from_motor_nan_product [where get_position = stored_position and motor = X
      and s = ?s, OF x this]
    centroid_from_motor_raises [where get_position = stored_position and motor = X
      and s = ?t, OF huge]
    x y ynan nan_not_zero
  show ?thesis
    by (simp add: value_simps)
qed

text \<open>
  Claim C2: the reading is a function of the position the motor reports. Two
  evaluations with the same size and scale, on motors that report the same position,
  return the same centroid or raise the same error, whatever else differs between the
  two motors and the two states.
\<close>

theorem centroid_from_motor_deterministic:
  "fst (get_position1 (motor_of motor1 s1)) = fst (get_position2 (motor_of motor2 s2)) \<Longrightarrow>
     fst (centroid_from_motor get_position1 motor1 size' scale' s1) =
     fst (centroid_from_motor get_position2 motor2 size' scale' s2)"
  by (simp add: centroid_from_motor_value)

theorem centroid_from_motor_deterministic_witness:
  "axes_at (PyFloat (float_of_int 320)) (PyFloat (float_of_int 200))
     \<noteq> axes_at (PyFloat (float_of_int 320)) (PyFloat (float_of_int 400))
   \<and> fst (stored_position (motor_of X (axes_at (PyFloat (float_of_int 320)) (PyFloat (float_of_int 200)))))
     = fst (caching_position (motor_of X (axes_at (PyFloat (float_of_int 320)) (PyFloat (float_of_int 400)))))
   \<and> fst (centroid_from_motor stored_position X (PyFloat (float_of_int 640)) (PyFloat float_one)
        (axes_at (PyFloat (float_of_int 320)) (PyFloat (float_of_int 200))))
     = fst (centroid_from_motor caching_position X (PyFloat (float_of_int 640)) (PyFloat float_one)
        (axes_at (PyFloat (float_of_int 320)) (PyFloat (float_of_int 400))))"
proof -
  have same: "fst (stored_position (motor_of X (axes_at (PyFloat (float_of_int 320)) (PyFloat (float_of_int 200)))))
     = fst (caching_position (motor_of X (axes_at (PyFloat (float_of_int 320)) (PyFloat (float_of_int 400)))))"
    by (simp only: position_axes_at position_caching_axes_at)
  have "PyFloat (float_of_int 200) \<noteq> PyFloat (float_of_int 400)"
    by (rule small_int_floats_differ) simp_all
  then have differ: "axes_at (PyFloat (float_of_int 320)) (PyFloat (float_of_int 200))
     \<noteq> axes_at (PyFloat (float_of_int 320)) (PyFloat (float_of_int 400))"
    by (simp add: axes_at_def)
  from differ same
    centroid_from_motor_deterministic [where ?get_position1.0 = stored_position
      and ?get_position2.0 = caching_position, OF same]
  show ?thesis
    by blast
qed

text \<open>
  Claim C3, as amended: when the size is not negative, the interval is closed at both
  ends. When position times scale equals 0 the function returns the computed centroid
  itself, which may be \<^verbatim>\<open>-0.0\<close> or the int 0, and not the constant \<^verbatim>\<open>0.\<close> of the
  other branch; when position times scale equals the size it returns the computed
  centroid, which equals the size.
\<close>

theorem centroid_from_motor_endpoints:
  assumes "py_mul (fst (get_position (motor_of motor s))) scale' = Inr centroid"
    and "\<not> py_lt size' (PyFloat float_zero)"
  shows "(py_eq centroid (PyFloat float_zero)
            \<longrightarrow> fst (centroid_from_motor get_position motor size' scale' s) = Inr centroid)
       \<and> (py_eq centroid size'
            \<longrightarrow> fst (centroid_from_motor get_position motor size' scale' s) = Inr centroid)"
proof (intro conjI impI)
  assume eq: "py_eq centroid (PyFloat float_zero)"
  then have v: "value_of centroid = value_of (PyFloat float_zero)"
    by (rule py_eq_value)
  then have "\<not> py_lt centroid (PyFloat float_zero)"
    by (simp add: py_lt_def value_of_float_zero less_extended_irrefl)
  moreover have "py_lt size' centroid = py_lt size' (PyFloat float_zero)"
    by (simp only: py_lt_def v)
  ultimately show "fst (centroid_from_motor get_position motor size' scale' s) = Inr centroid"
    using assms by (simp add: centroid_from_motor_value py_gt_def)
next
  assume eq: "py_eq centroid size'"
  then have v: "value_of centroid = value_of size'"
    by (rule py_eq_value)
  then have "py_lt centroid (PyFloat float_zero) = py_lt size' (PyFloat float_zero)"
    by (simp only: py_lt_def)
  moreover have "\<not> py_lt size' centroid"
    unfolding py_lt_def v by (simp add: less_extended_irrefl split: option.split)
  ultimately show "fst (centroid_from_motor get_position motor size' scale' s) = Inr centroid"
    using assms by (simp add: centroid_from_motor_value py_gt_def)
qed

theorem centroid_from_motor_endpoints_witness:
  "py_mul (fst (stored_position (motor_of X (axes_at (PyFloat negative_zero) (PyFloat (float_of_int 320))))))
      (PyFloat float_one) = Inr (PyFloat negative_zero)
   \<and> \<not> py_lt (PyFloat (float_of_int 640)) (PyFloat float_zero)
   \<and> py_eq (PyFloat negative_zero) (PyFloat float_zero)
   \<and> fst (centroid_from_motor stored_position X (PyFloat (float_of_int 640)) (PyFloat float_one)
        (axes_at (PyFloat negative_zero) (PyFloat (float_of_int 320)))) = Inr (PyFloat negative_zero)
   \<and> PyFloat negative_zero \<noteq> PyFloat float_zero
   \<and> py_mul (fst (stored_position (motor_of Y (axes_at (PyFloat negative_zero) (PyFloat (float_of_int 320))))))
      (PyFloat (float_of_int 2)) = Inr (PyFloat (float_of_int 640))
   \<and> py_eq (PyFloat (float_of_int 640)) (PyFloat (float_of_int 640))
   \<and> fst (centroid_from_motor stored_position Y (PyFloat (float_of_int 640)) (PyFloat (float_of_int 2))
        (axes_at (PyFloat negative_zero) (PyFloat (float_of_int 320)))) = Inr (PyFloat (float_of_int 640))"
proof -
  let ?s = "axes_at (PyFloat negative_zero) (PyFloat (float_of_int 320))"
  have x: "py_mul (fst (stored_position (motor_of X ?s))) (PyFloat float_one)
      = Inr (PyFloat negative_zero)"
    by (simp only: position_axes_at mul_float_one [OF negative_zero_parts(3)])
  have y: "py_mul (fst (stored_position (motor_of Y ?s))) (PyFloat (float_of_int 2))
      = Inr (PyFloat (float_of_int 640))"
    by (simp only: position_axes_at mul_320_2)
  have size: "\<not> py_lt (PyFloat (float_of_int 640)) (PyFloat float_zero)"
    by (simp add: value_simps)
  have eq: "py_eq (PyFloat negative_zero) (PyFloat float_zero)"
    "py_eq (PyFloat (float_of_int 640)) (PyFloat (float_of_int 640))"
    by (simp_all add: value_simps)
  from x y size eq negative_zero_not_zero
    centroid_from_motor_endpoints [where get_position = stored_position and motor = X and s = ?s,
      OF x size]
    centroid_from_motor_endpoints [where get_position = stored_position and motor = Y and s = ?s,
      OF y size]
  show ?thesis
    by blast
qed

text \<open>
  Claim C3 as it was stated, with no condition on the size, fails for a negative size.
  At size -5, position -5 and scale 1 the product equals the size, the test
  \<^verbatim>\<open>centroid < 0.\<close> holds, and the function returns 0.0 and not the size. At size -5
  and position \<^verbatim>\<open>-0.0\<close> the product equals 0, the test \<^verbatim>\<open>centroid > size\<close> holds, and
  the function returns the constant \<^verbatim>\<open>0.\<close> and not the computed \<^verbatim>\<open>-0.0\<close>.
\<close>

theorem centroid_from_motor_negative_size:
  "py_mul (fst (stored_position (motor_of X (axes_at (PyFloat (float_of_int (- 5))) (PyFloat negative_zero)))))
      (PyFloat float_one) = Inr (PyFloat (float_of_int (- 5)))
   \<and> py_eq (PyFloat (float_of_int (- 5))) (PyFloat (float_of_int (- 5)))
   \<and> fst (centroid_from_motor stored_position X (PyFloat (float_of_int (- 5))) (PyFloat float_one)
        (axes_at (PyFloat (float_of_int (- 5))) (PyFloat negative_zero))) = Inr (PyFloat float_zero)
   \<and> \<not> py_eq (PyFloat float_zero) (PyFloat (float_of_int (- 5)))
   \<and> py_mul (fst (stored_position (motor_of Y (axes_at (PyFloat (float_of_int (- 5))) (PyFloat negative_zero)))))
      (PyFloat float_one) = Inr (PyFloat negative_zero)
   \<and> py_eq (PyFloat negative_zero) (PyFloat float_zero)
   \<and> fst (centroid_from_motor stored_position Y (PyFloat (float_of_int (- 5))) (PyFloat float_one)
        (axes_at (PyFloat (float_of_int (- 5))) (PyFloat negative_zero))) = Inr (PyFloat float_zero)
   \<and> PyFloat float_zero \<noteq> PyFloat negative_zero"
proof -
  have n5: "\<not> is_nan (float_of_int (- 5))"
    by (rule small_int_not_nan) simp
  show ?thesis
    using negative_zero_not_zero
    by (simp add: centroid_from_motor_value position_axes_at fmul_one n5
        negative_zero_parts(3) value_simps)
qed

text \<open>
  Claim C5: evaluating at position p with scale c gives the same result as evaluating
  at position p times c with scale 1 and the same size. With the int 1 as the scale
  this holds for every product; with the float \<^verbatim>\<open>1.\<close> it holds whenever the product
  is a float.
\<close>

theorem centroid_from_motor_scale:
  assumes "py_mul (fst (get_position1 (motor_of motor1 s1))) scale'
            = Inr (fst (get_position2 (motor_of motor2 s2)))"
  shows "fst (centroid_from_motor get_position1 motor1 size' scale' s1) =
         fst (centroid_from_motor get_position2 motor2 size' (PyInt 1) s2)
       \<and> (\<forall>x. fst (get_position2 (motor_of motor2 s2)) = PyFloat x \<longrightarrow>
            fst (centroid_from_motor get_position1 motor1 size' scale' s1) =
            fst (centroid_from_motor get_position2 motor2 size' (PyFloat float_one) s2))"
  using assms py_mul_one [OF assms] py_mul_float_one [of "fst (get_position1 (motor_of motor1 s1))" scale']
  by (auto simp add: centroid_from_motor_value)

theorem centroid_from_motor_scale_witness:
  "py_mul (fst (stored_position (motor_of X (axes_at (PyFloat (float_of_int 200)) (PyFloat float_zero)))))
      (PyFloat (float_of_int 2))
     = Inr (fst (stored_position (motor_of X (axes_at (PyFloat (float_of_int 400)) (PyFloat float_zero)))))
   \<and> fst (centroid_from_motor stored_position X (PyFloat (float_of_int 640)) (PyFloat (float_of_int 2))
        (axes_at (PyFloat (float_of_int 200)) (PyFloat float_zero)))
     = fst (centroid_from_motor stored_position X (PyFloat (float_of_int 640)) (PyInt 1)
        (axes_at (PyFloat (float_of_int 400)) (PyFloat float_zero)))
   \<and> fst (centroid_from_motor stored_position X (PyFloat (float_of_int 640)) (PyFloat (float_of_int 2))
        (axes_at (PyFloat (float_of_int 200)) (PyFloat float_zero)))
     = fst (centroid_from_motor stored_position X (PyFloat (float_of_int 640)) (PyFloat float_one)
        (axes_at (PyFloat (float_of_int 400)) (PyFloat float_zero)))"
proof -
  have scaled: "py_mul (fst (stored_position (motor_of X (axes_at (PyFloat (float_of_int 200)) (PyFloat float_zero)))))
      (PyFloat (float_of_int 2))
     = Inr (fst (stored_position (motor_of X (axes_at (PyFloat (float_of_int 400)) (PyFloat float_zero)))))"
    by (simp only: position_axes_at mul_200_2)
  have pos: "fst (stored_position (motor_of X (axes_at (PyFloat (float_of_int 400)) (PyFloat float_zero))))
     = PyFloat (float_of_int 400)"
    by (simp only: position_axes_at)
  from scaled pos
    centroid_from_motor_scale [where ?get_position1.0 = stored_position
      and ?get_position2.0 = stored_position and ?motor1.0 = X and ?motor2.0 = X
      and size' = "PyFloat (float_of_int 640)", OF scaled]
  show ?thesis
    by blast
qed

text \<open>
  Claim C6, as amended: with the default arguments, size 640.0 and scale 1.0, for every
  position that is not NaN and, if it is an int, converts to a float: when the position
  lies from 0 to 640 the function returns a value equal to the position, and the
  position itself when it is a float; for every other such position it returns 0.0.
\<close>

theorem centroid_from_motor_defaults:
  assumes "\<not> py_isnan (fst (get_position (motor_of motor s)))"
    and "py_mul (fst (get_position (motor_of motor s))) (PyFloat float_one) \<noteq> Inl OverflowError"
  shows "(py_le (PyFloat float_zero) (fst (get_position (motor_of motor s)))
          \<and> py_le (fst (get_position (motor_of motor s))) (PyFloat (float_of_int 640))
          \<longrightarrow> (\<exists>v. fst (partial_centroid_from_motor get_position motor s) = Inr v
                    \<and> py_eq v (fst (get_position (motor_of motor s))))
              \<and> (\<forall>x. fst (get_position (motor_of motor s)) = PyFloat x
                    \<longrightarrow> fst (partial_centroid_from_motor get_position motor s) = Inr (PyFloat x)))
       \<and> (\<not> (py_le (PyFloat float_zero) (fst (get_position (motor_of motor s)))
              \<and> py_le (fst (get_position (motor_of motor s))) (PyFloat (float_of_int 640)))
          \<longrightarrow> fst (partial_centroid_from_motor get_position motor s) = Inr (PyFloat float_zero))"
proof (cases "fst (get_position (motor_of motor s))")
  case (PyFloat x)
  then have nn: "\<not> is_nan x" "\<not> py_isnan (PyFloat x)"
    using assms(1) by (auto simp add: py_isnan_def value_of.simps split: if_splits)
  have n640: "\<not> py_isnan (PyFloat (float_of_int 640))"
    by (simp add: py_isnan_def value_of_640)
  show ?thesis
    unfolding PyFloat partial_value_float [where get_position = get_position and motor = motor and s = s, OF nn(1) PyFloat]
    using nn(2) n640
    by (simp add: py_le_iff float_zero_not_nan py_gt_def py_eq_refl)
next
  case (PyInt n)
  then obtain x where conv: "int_to_double n = Inr x"
    using assms(2) by (auto simp add: int_to_double_def split: if_splits)
  from int_to_double_value [OF conv] obtain v where v: "value_of (PyFloat x) = Some (Number v)"
    and small: "\<bar>n\<bar> < 2 ^ 53 \<longrightarrow> v = of_int n"
    and pos: "0 < n \<and> 2 ^ 53 \<le> \<bar>n\<bar> \<longrightarrow> 2 ^ 53 \<le> v"
    and neg: "n < 0 \<and> 2 ^ 53 \<le> \<bar>n\<bar> \<longrightarrow> v \<le> - (2 ^ 53)"
    by blast
  have lt: "py_lt (PyFloat x) (PyFloat float_zero) \<longleftrightarrow> n < 0"
    using small pos neg by (auto simp add: py_lt_def v value_of_float_zero)
  have gt: "py_gt (PyFloat x) (PyFloat (float_of_int 640)) \<longleftrightarrow> 640 < n"
    using small pos neg by (auto simp add: py_gt_def py_lt_def v value_of_640)
  have le0: "py_le (PyFloat float_zero) (PyInt n) \<longleftrightarrow> 0 \<le> n"
    by (auto simp add: py_le_def value_of_float_zero value_of_PyInt)
  have le640: "py_le (PyInt n) (PyFloat (float_of_int 640)) \<longleftrightarrow> n \<le> 640"
    by (auto simp add: py_le_def value_of_640 value_of_PyInt)
  have eq: "0 \<le> n \<Longrightarrow> n \<le> 640 \<Longrightarrow> py_eq (PyFloat x) (PyInt n)"
    using small by (simp add: py_eq_def v value_of_PyInt)
  show ?thesis
    unfolding PyInt partial_value_int [where get_position = get_position and motor = motor and s = s, OF conv PyInt] lt gt le0 le640
    using eq by auto
qed

theorem centroid_from_motor_defaults_witness:
  "\<not> py_isnan (fst (stored_position (motor_of X (axes_at (PyFloat (float_of_int 320)) (PyInt 800)))))
   \<and> py_mul (fst (stored_position (motor_of X (axes_at (PyFloat (float_of_int 320)) (PyInt 800)))))
        (PyFloat float_one) \<noteq> Inl OverflowError
   \<and> py_le (PyFloat float_zero) (PyFloat (float_of_int 320))
   \<and> py_le (PyFloat (float_of_int 320)) (PyFloat (float_of_int 640))
   \<and> fst (partial_centroid_from_motor stored_position X
        (axes_at (PyFloat (float_of_int 320)) (PyInt 800))) = Inr (PyFloat (float_of_int 320))
   \<and> \<not> py_isnan (fst (stored_position (motor_of Y (axes_at (PyFloat (float_of_int 320)) (PyInt 800)))))
   \<and> py_mul (fst (stored_position (motor_of Y (axes_at (PyFloat (float_of_int 320)) (PyInt 800)))))
        (PyFloat float_one) \<noteq> Inl OverflowError
   \<and> \<not> py_le (PyInt 800) (PyFloat (float_of_int 640))
   \<and> fst (partial_centroid_from_motor stored_position Y
        (axes_at (PyFloat (float_of_int 320)) (PyInt 800))) = Inr (PyFloat float_zero)"
proof -
  let ?s = "axes_at (PyFloat (float_of_int 320)) (PyInt 800)"
  have px: "fst (stored_position (motor_of X ?s)) = PyFloat (float_of_int 320)"
    and py: "fst (stored_position (motor_of Y ?s)) = PyInt 800"
    by (simp_all only: position_axes_at)
  have nx: "\<not> py_isnan (fst (stored_position (motor_of X ?s)))"
    and ny: "\<not> py_isnan (fst (stored_position (motor_of Y ?s)))"
    unfolding px py by (simp_all add: value_simps)
  have mx: "py_mul (fst (stored_position (motor_of X ?s))) (PyFloat float_one) \<noteq> Inl OverflowError"
    and my: "py_mul (fst (stored_position (motor_of Y ?s))) (PyFloat float_one) \<noteq> Inl OverflowError"
    unfolding px py by (simp_all add: int_to_double_small)
  have cmp: "py_le (PyFloat float_zero) (PyFloat (float_of_int 320))"
    "py_le (PyFloat (float_of_int 320)) (PyFloat (float_of_int 640))"
    "\<not> py_le (PyInt 800) (PyFloat (float_of_int 640))"
    by (simp_all add: value_simps)
  from nx ny mx my cmp
    centroid_from_motor_defaults [where get_position = stored_position and motor = X and s = ?s,
      OF nx mx]
    centroid_from_motor_defaults [where get_position = stored_position and motor = Y and s = ?s,
      OF ny my]
  show ?thesis
    unfolding px py by blast
qed

text \<open>
  Claim C6 as it was stated, for every position, fails at a NaN position, which is
  outside the range and for which the function returns the NaN, and at an int position
  too large for a float, for which the function raises \<^verbatim>\<open>OverflowError\<close>.
\<close>

theorem centroid_from_motor_defaults_nan:
  "\<not> (py_le (PyFloat float_zero) (PyFloat nan) \<and> py_le (PyFloat nan) (PyFloat (float_of_int 640)))
   \<and> fst (partial_centroid_from_motor stored_position X (axes_at (PyFloat nan) (PyInt huge_int)))
       = Inr (PyFloat nan)
   \<and> PyFloat nan \<noteq> PyFloat float_zero
   \<and> \<not> (py_le (PyFloat float_zero) (PyInt huge_int)
          \<and> py_le (PyInt huge_int) (PyFloat (float_of_int 640)))
   \<and> fst (partial_centroid_from_motor stored_position Y (axes_at (PyFloat nan) (PyInt huge_int)))
       = Inl OverflowError"
proof -
  let ?s = "axes_at (PyFloat nan) (PyInt huge_int)"
  have x: "py_mul (fst (stored_position (motor_of X ?s))) (PyFloat float_one) = Inr (PyFloat nan)"
    by (simp only: position_axes_at mul_nan)
  have y: "py_mul (fst (stored_position (motor_of Y ?s))) (PyFloat float_one) = Inl OverflowError"
    by (simp only: position_axes_at mul_overflow)
  have nan: "py_isnan (PyFloat nan)"
    by (simp add: value_simps)
  have "\<not> py_le (PyInt huge_int) (PyFloat (float_of_int 640))"
    by (simp add: value_simps huge_int_large)
  with nan_not_zero
    centroid_from_motor_nan_product [where get_position = stored_position and motor = X
      and s = ?s, OF x nan]
    centroid_from_motor_raises [where get_position = stored_position and motor = Y
      and s = ?s, OF y]
  show ?thesis
    by (simp add: partial_centroid_from_motor_def value_simps huge_int_large)
qed

text \<open>
  Claim C7, as amended: the function reads the position of the motor once and writes
  nothing. The state it leaves is the state that the read of the position leaves: the
  other motor and the list of triggered signals are as before, and the motor is as
  before whenever reading its position leaves it as it is.
\<close>

theorem centroid_from_motor_frame:
  "snd (centroid_from_motor get_position motor size' scale' s) =
       put_motor motor (snd (get_position (motor_of motor s))) s
   \<and> (snd (get_position (motor_of motor s)) = motor_of motor s
        \<longrightarrow> snd (centroid_from_motor get_position motor size' scale' s) = s)
   \<and> (other \<noteq> motor
        \<longrightarrow> motor_of other (snd (centroid_from_motor get_position motor size' scale' s))
              = motor_of other s)
   \<and> triggered (snd (centroid_from_motor get_position motor size' scale' s)) = triggered s"
  by (cases motor; cases other) (simp_all add: centroid_from_motor_state)

theorem centroid_from_motor_frame_witness:
  "snd (stored_position (motor_of X (axes_at (PyFloat (float_of_int 320)) (PyFloat (float_of_int 200)))))
     = motor_of X (axes_at (PyFloat (float_of_int 320)) (PyFloat (float_of_int 200)))
   \<and> snd (centroid_from_motor stored_position X (PyFloat (float_of_int 640)) (PyFloat float_one)
        (axes_at (PyFloat (float_of_int 320)) (PyFloat (float_of_int 200))))
     = axes_at (PyFloat (float_of_int 320)) (PyFloat (float_of_int 200))
   \<and> Y \<noteq> X
   \<and> motor_of Y (snd (centroid_from_motor caching_position X (PyFloat (float_of_int 640)) (PyFloat float_one)
        (axes_at (PyFloat (float_of_int 320)) (PyFloat (float_of_int 200)))))
     = motor_of Y (axes_at (PyFloat (float_of_int 320)) (PyFloat (float_of_int 200)))"
proof -
  let ?s = "axes_at (PyFloat (float_of_int 320)) (PyFloat (float_of_int 200))"
  have pure: "snd (stored_position (motor_of X ?s)) = motor_of X ?s"
    by (simp add: stored_position_def)
  have other: "Y \<noteq> X"
    by simp
  from pure other
    centroid_from_motor_frame [where get_position = stored_position and motor = X and s = ?s
      and size' = "PyFloat (float_of_int 640)" and scale' = "PyFloat float_one" and other = Y]
    centroid_from_motor_frame [where get_position = caching_position and motor = X and s = ?s
      and size' = "PyFloat (float_of_int 640)" and scale' = "PyFloat float_one" and other = Y]
  show ?thesis
    by blast
qed

text \<open>
  Claim C7 as it was stated, for every motor, fails for a motor whose position
  property keeps the value it returns: after the call the cache of the motor holds
  the position, so the state of the motor has changed.
\<close>

theorem centroid_from_motor_caching:
  "cache (motor_x (axes_at (PyFloat (float_of_int 320)) (PyFloat (float_of_int 200)))) = None
   \<and> cache (motor_x (snd (centroid_from_motor caching_position X (PyFloat (float_of_int 640))
        (PyFloat float_one) (axes_at (PyFloat (float_of_int 320)) (PyFloat (float_of_int 200))))))
       = Some (PyFloat (float_of_int 320))
   \<and> snd (centroid_from_motor caching_position X (PyFloat (float_of_int 640)) (PyFloat float_one)
        (axes_at (PyFloat (float_of_int 320)) (PyFloat (float_of_int 200))))
       \<noteq> axes_at (PyFloat (float_of_int 320)) (PyFloat (float_of_int 200))"
  by (simp add: centroid_from_motor_state caching_position_def axes_at_def)

text \<open>
  Claim C8, as amended: when the size is not negative, the product of position and
  scale is computed and is not NaN, the function returns a value that lies between 0
  and the size, both included.
\<close>

theorem centroid_from_motor_range:
  assumes "py_le (PyFloat float_zero) size'"
    and "py_mul (fst (get_position (motor_of motor s))) scale' = Inr centroid"
    and "\<not> py_isnan centroid"
  shows "\<exists>v. fst (centroid_from_motor get_position motor size' scale' s) = Inr v
           \<and> py_le (PyFloat float_zero) v \<and> py_le v size'"
proof -
  have size_ok: "\<not> py_isnan size'"
    using assms(1) by (simp add: py_le_not_nan)
  show ?thesis
    using assms size_ok
    by (auto simp add: centroid_from_motor_value py_le_iff float_zero_not_nan py_gt_def
        py_lt_irrefl)
qed

theorem centroid_from_motor_range_witness:
  "py_le (PyFloat float_zero) (PyFloat (float_of_int 640))
   \<and> py_mul (fst (stored_position (motor_of X (axes_at (PyFloat float_213) (PyFloat (float_of_int 800))))))
      (PyFloat (float_of_int 3)) = Inr (PyFloat (float_of_int 640))
   \<and> \<not> py_isnan (PyFloat (float_of_int 640))
   \<and> (\<exists>v. fst (centroid_from_motor stored_position X (PyFloat (float_of_int 640)) (PyFloat (float_of_int 3))
              (axes_at (PyFloat float_213) (PyFloat (float_of_int 800)))) = Inr v
          \<and> py_le (PyFloat float_zero) v \<and> py_le v (PyFloat (float_of_int 640)))"
proof -
  let ?s = "axes_at (PyFloat float_213) (PyFloat (float_of_int 800))"
  have size: "py_le (PyFloat float_zero) (PyFloat (float_of_int 640))"
    by (simp add: value_simps)
  have x: "py_mul (fst (stored_position (motor_of X ?s))) (PyFloat (float_of_int 3))
      = Inr (PyFloat (float_of_int 640))"
    by (simp only: position_axes_at mul_213_3)
  have n640: "\<not> py_isnan (PyFloat (float_of_int 640))"
    by (simp add: value_simps)
  from size x n640
    centroid_from_motor_range [where get_position = stored_position and motor = X and s = ?s,
      OF size x n640]
  show ?thesis
    by blast
qed

text \<open>
  Claim C8 as it was stated, for every position and scale, fails at position 0 with an
  infinite scale: the product is NaN and the function returns it, and a NaN is not in
  the interval from 0 to 640. At an int position too large for a float the function
  raises \<^verbatim>\<open>OverflowError\<close> and returns no value.
\<close>

theorem centroid_from_motor_range_nan:
  "py_le (PyFloat float_zero) (PyFloat (float_of_int 640))
   \<and> py_mul (fst (stored_position (motor_of X (axes_at (PyFloat float_zero) (PyInt huge_int)))))
      (PyFloat (infinity False)) = Inr (PyFloat nan)
   \<and> fst (centroid_from_motor stored_position X (PyFloat (float_of_int 640)) (PyFloat (infinity False))
        (axes_at (PyFloat float_zero) (PyInt huge_int))) = Inr (PyFloat nan)
   \<and> \<not> (py_le (PyFloat float_zero) (PyFloat nan) \<and> py_le (PyFloat nan) (PyFloat (float_of_int 640)))
   \<and> fst (centroid_from_motor stored_position Y (PyFloat (float_of_int 640)) (PyFloat float_one)
        (axes_at (PyFloat float_zero) (PyInt huge_int))) = Inl OverflowError"
proof -
  let ?s = "axes_at (PyFloat float_zero) (PyInt huge_int)"
  have x: "py_mul (fst (stored_position (motor_of X ?s))) (PyFloat (infinity False))
      = Inr (PyFloat nan)"
    by (simp only: position_axes_at mul_zero_infinity)
  have y: "py_mul (fst (stored_position (motor_of Y ?s))) (PyFloat float_one) = Inl OverflowError"
    by (simp only: position_axes_at mul_overflow)
  have nan: "py_isnan (PyFloat nan)"
    by (simp add: value_simps)
  from x centroid_from_motor_nan_product [where get_position = stored_position and motor = X
      and s = ?s, OF x nan]
    centroid_from_motor_raises [where get_position = stored_position and motor = Y
      and s = ?s, OF y]
  show ?thesis
    by (simp add: value_simps)
qed

section \<open>The detector\<close>

text \<open>
  Claim C4, as amended: the detector has exactly two signal components, x_centroid
  bound to the motor x and y_centroid bound to the motor y. Every call of its trigger
  in which neither centroid evaluation raises triggers the x_centroid signal, then the
  y_centroid signal, and returns what the trigger of the base class returns, called
  after both. After the two triggers each signal holds the centroid of its own motor,
  and the two names are the last two entries of the list of triggered signals, in this
  order.
\<close>

theorem Imager_trigger_components:
  assumes "fst (centroid_from_motor get_position X (PyFloat (float_of_int 640)) (PyFloat float_one) s)
            = Inr vx"
    and "fst (centroid_from_motor get_position Y (PyFloat (float_of_int 640)) (PyFloat float_one) s)
            = Inr vy"
  shows "self = \<lparr>device_name = device_name self, x_centroid = x_centroid self,
                 y_centroid = y_centroid self\<rparr>
   \<and> x_centroid_func get_position
        = centroid_from_motor get_position X (PyFloat (float_of_int 640)) (PyFloat float_one)
   \<and> y_centroid_func get_position
        = centroid_from_motor get_position Y (PyFloat (float_of_int 640)) (PyFloat float_one)
   \<and> SynSignal_trigger (x_centroid_func get_position) (x_centroid self) s =
       (Inr (), (x_centroid self)\<lparr>readback := vx\<rparr>,
        s\<lparr>motor_x := snd (get_position (motor_x s)),
          triggered := triggered s @ [name (x_centroid self)]\<rparr>)
   \<and> SynSignal_trigger (y_centroid_func get_position) (y_centroid self) s =
       (Inr (), (y_centroid self)\<lparr>readback := vy\<rparr>,
        s\<lparr>motor_y := snd (get_position (motor_y s)),
          triggered := triggered s @ [name (y_centroid self)]\<rparr>)
   \<and> Imager_trigger get_position super_trigger self s =
       super_trigger
         (self\<lparr>x_centroid := (x_centroid self)\<lparr>readback := vx\<rparr>,
               y_centroid := (y_centroid self)\<lparr>readback := vy\<rparr>\<rparr>)
         (s\<lparr>motor_x := snd (get_position (motor_x s)),
            motor_y := snd (get_position (motor_y s)),
            triggered := triggered s @ [name (x_centroid self), name (y_centroid self)]\<rparr>)"
proof -
  have px: "fst (partial_centroid_from_motor get_position X s) = Inr vx"
    and py: "fst (partial_centroid_from_motor get_position Y s) = Inr vy"
    using assms by (simp_all add: partial_centroid_from_motor_def)
  have "self = \<lparr>device_name = device_name self, x_centroid = x_centroid self,
                y_centroid = y_centroid self\<rparr>"
    by simp
  moreover have "x_centroid_func get_position
      = centroid_from_motor get_position X (PyFloat (float_of_int 640)) (PyFloat float_one)"
    by (simp add: x_centroid_func_def partial_centroid_from_motor_def)
  moreover have "y_centroid_func get_position
      = centroid_from_motor get_position Y (PyFloat (float_of_int 640)) (PyFloat float_one)"
    by (simp add: y_centroid_func_def partial_centroid_from_motor_def)
  moreover have "SynSignal_trigger (x_centroid_func get_position) (x_centroid self) s =
       (Inr (), (x_centroid self)\<lparr>readback := vx\<rparr>,
        s\<lparr>motor_x := snd (get_position (motor_x s)),
          triggered := triggered s @ [name (x_centroid self)]\<rparr>)"
    unfolding x_centroid_func_def SynSignal_trigger_partial px by (cases s) simp
  moreover have "SynSignal_trigger (y_centroid_func get_position) (y_centroid self) s =
       (Inr (), (y_centroid self)\<lparr>readback := vy\<rparr>,
        s\<lparr>motor_y := snd (get_position (motor_y s)),
          triggered := triggered s @ [name (y_centroid self)]\<rparr>)"
    unfolding y_centroid_func_def SynSignal_trigger_partial py by (cases s) simp
  moreover have "Imager_trigger get_position super_trigger self s =
       super_trigger
         (self\<lparr>x_centroid := (x_centroid self)\<lparr>readback := vx\<rparr>,
               y_centroid := (y_centroid self)\<lparr>readback := vy\<rparr>\<rparr>)
         (s\<lparr>motor_x := snd (get_position (motor_x s)),
            motor_y := snd (get_position (motor_y s)),
            triggered := triggered s @ [name (x_centroid self), name (y_centroid self)]\<rparr>)"
    unfolding Imager_trigger_cases px py by simp
  ultimately show ?thesis
    by blast
qed

theorem Imager_trigger_components_witness:
  "fst (centroid_from_motor stored_position X (PyFloat (float_of_int 640)) (PyFloat float_one)
        (axes_at (PyFloat (float_of_int 320)) (PyFloat (float_of_int 200))))
     = Inr (PyFloat (float_of_int 320))
   \<and> fst (centroid_from_motor stored_position Y (PyFloat (float_of_int 640)) (PyFloat float_one)
        (axes_at (PyFloat (float_of_int 320)) (PyFloat (float_of_int 200))))
     = Inr (PyFloat (float_of_int 200))
   \<and> Imager_trigger stored_position finished_trigger example_imager
        (axes_at (PyFloat (float_of_int 320)) (PyFloat (float_of_int 200)))
     = (Inr True,
        example_imager
          \<lparr>x_centroid := (x_centroid example_imager)\<lparr>readback := PyFloat (float_of_int 320)\<rparr>,
           y_centroid := (y_centroid example_imager)\<lparr>readback := PyFloat (float_of_int 200)\<rparr>\<rparr>,
        (axes_at (PyFloat (float_of_int 320)) (PyFloat (float_of_int 200)))
          \<lparr>triggered := [''imager_x_centroid'', ''imager_y_centroid'']\<rparr>)"
proof -
  let ?s = "axes_at (PyFloat (float_of_int 320)) (PyFloat (float_of_int 200))"
  have x: "fst (centroid_from_motor stored_position X (PyFloat (float_of_int 640)) (PyFloat float_one) ?s)
      = Inr (PyFloat (float_of_int 320))"
    and y: "fst (centroid_from_motor stored_position Y (PyFloat (float_of_int 640)) (PyFloat float_one) ?s)
      = Inr (PyFloat (float_of_int 200))"
    using partial_axes_at_on_screen [of 320 200]
    by (simp_all add: partial_centroid_from_motor_def)
  from x y
    Imager_trigger_components [where get_position = stored_position and s = ?s
      and self = example_imager and super_trigger = finished_trigger, OF x y]
  show ?thesis
    by (simp add: finished_trigger_def stored_position_def axes_at_def example_imager_def)
qed

text \<open>
  Claim C4 as it was stated, for every call, fails when the position of x is an int too
  large for a float: the evaluation of the x_centroid function raises
  \<^verbatim>\<open>OverflowError\<close>, the trigger of the detector raises it, the y_centroid signal is
  not triggered and the trigger of the base class is not called.
\<close>

theorem Imager_trigger_overflow:
  "Imager_trigger stored_position finished_trigger example_imager
        (axes_at (PyInt huge_int) (PyFloat (float_of_int 200)))
     = (Inl OverflowError, example_imager,
        (axes_at (PyInt huge_int) (PyFloat (float_of_int 200)))
          \<lparr>triggered := [''imager_x_centroid'']\<rparr>)
   \<and> fst (Imager_trigger stored_position finished_trigger example_imager
        (axes_at (PyInt huge_int) (PyFloat (float_of_int 200)))) \<noteq> Inr True
   \<and> ''imager_y_centroid'' \<notin> set [''imager_x_centroid'']"
  unfolding Imager_trigger_cases partial_axes_at_overflow
  by (simp add: stored_position_def axes_at_def example_imager_def)

text \<open>
  Claim C9, as amended: after a trigger in which the x_centroid evaluation returns, the
  x_centroid reading is determined by the position of the motor x alone: two such
  triggers in states where x reports the same position give the same reading, wherever
  y is and whatever the detector held before. After a trigger in which both evaluations
  return, the y_centroid reading is determined by the position of the motor y alone.
  The trigger of the base class is assumed to leave the two readings as they are.
\<close>

theorem Imager_axes_independent:
  assumes "\<And>d t. readback (x_centroid (fst (snd (super_trigger d t)))) = readback (x_centroid d)"
    and "\<And>d t. readback (y_centroid (fst (snd (super_trigger d t)))) = readback (y_centroid d)"
  shows "(fst (get_position (motor_x s_a)) = fst (get_position (motor_x s_b))
          \<and> \<not> isl (fst (x_centroid_func get_position s_a))
          \<longrightarrow> readback (x_centroid (fst (snd (Imager_trigger get_position super_trigger self_a s_a)))) =
              readback (x_centroid (fst (snd (Imager_trigger get_position super_trigger self_b s_b)))))
       \<and> (fst (get_position (motor_y s_a)) = fst (get_position (motor_y s_b))
          \<and> \<not> isl (fst (y_centroid_func get_position s_a))
          \<and> \<not> isl (fst (x_centroid_func get_position s_a))
          \<and> \<not> isl (fst (x_centroid_func get_position s_b))
          \<longrightarrow> readback (y_centroid (fst (snd (Imager_trigger get_position super_trigger self_a s_a)))) =
              readback (y_centroid (fst (snd (Imager_trigger get_position super_trigger self_b s_b)))))"
proof (intro conjI impI)
  assume h: "fst (get_position (motor_x s_a)) = fst (get_position (motor_x s_b))
      \<and> \<not> isl (fst (x_centroid_func get_position s_a))"
  then obtain vx where a: "fst (partial_centroid_from_motor get_position X s_a) = Inr vx"
    by (cases "fst (partial_centroid_from_motor get_position X s_a)")
      (simp_all add: x_centroid_func_def)
  have b: "fst (partial_centroid_from_motor get_position X s_b) = Inr vx"
    using a h partial_value_cong [of get_position X s_a s_b] by simp
  have "readback (x_centroid (fst (snd (Imager_trigger get_position super_trigger self s)))) = vx"
    if "fst (partial_centroid_from_motor get_position X s) = Inr vx" for self s
    unfolding Imager_trigger_cases that using assms(1) by (simp split: sum.split)
  from this [OF a] this [OF b]
  show "readback (x_centroid (fst (snd (Imager_trigger get_position super_trigger self_a s_a)))) =
      readback (x_centroid (fst (snd (Imager_trigger get_position super_trigger self_b s_b))))"
    by simp
next
  assume h: "fst (get_position (motor_y s_a)) = fst (get_position (motor_y s_b))
      \<and> \<not> isl (fst (y_centroid_func get_position s_a))
      \<and> \<not> isl (fst (x_centroid_func get_position s_a))
      \<and> \<not> isl (fst (x_centroid_func get_position s_b))"
  then obtain vy where a: "fst (partial_centroid_from_motor get_position Y s_a) = Inr vy"
    by (cases "fst (partial_centroid_from_motor get_position Y s_a)")
      (simp_all add: y_centroid_func_def)
  have b: "fst (partial_centroid_from_motor get_position Y s_b) = Inr vy"
    using a h partial_value_cong [of get_position Y s_a s_b] by simp
  obtain xa xb where xa: "fst (partial_centroid_from_motor get_position X s_a) = Inr xa"
    and xb: "fst (partial_centroid_from_motor get_position X s_b) = Inr xb"
    using h
    by (cases "fst (partial_centroid_from_motor get_position X s_a)";
        cases "fst (partial_centroid_from_motor get_position X s_b)")
      (simp_all add: x_centroid_func_def)
  have "readback (y_centroid (fst (snd (Imager_trigger get_position super_trigger self s)))) = vy"
    if "fst (partial_centroid_from_motor get_position X s) = Inr vx"
      and "fst (partial_centroid_from_motor get_position Y s) = Inr vy" for self s vx
    unfolding Imager_trigger_cases that using assms(2) by simp
  from this [OF xa a] this [OF xb b]
  show "readback (y_centroid (fst (snd (Imager_trigger get_position super_trigger self_a s_a)))) =
      readback (y_centroid (fst (snd (Imager_trigger get_position super_trigger self_b s_b))))"
    by simp
qed

theorem Imager_axes_independent_witness:
  "fst (stored_position (motor_x (axes_at (PyFloat (float_of_int 320)) (PyFloat (float_of_int 200)))))
     = fst (stored_position (motor_x (axes_at (PyFloat (float_of_int 320)) (PyFloat (float_of_int 400)))))
   \<and> PyFloat (float_of_int 200) \<noteq> PyFloat (float_of_int 400)
   \<and> \<not> isl (fst (x_centroid_func stored_position
          (axes_at (PyFloat (float_of_int 320)) (PyFloat (float_of_int 200)))))
   \<and> readback (x_centroid (fst (snd (Imager_trigger stored_position finished_trigger example_imager
        (axes_at (PyFloat (float_of_int 320)) (PyFloat (float_of_int 200)))))))
     = readback (x_centroid (fst (snd (Imager_trigger stored_position finished_trigger example_imager
        (axes_at (PyFloat (float_of_int 320)) (PyFloat (float_of_int 400)))))))
   \<and> fst (stored_position (motor_y (axes_at (PyFloat (float_of_int 320)) (PyFloat (float_of_int 200)))))
     = fst (stored_position (motor_y (axes_at (PyFloat (float_of_int 600)) (PyFloat (float_of_int 200)))))
   \<and> PyFloat (float_of_int 320) \<noteq> PyFloat (float_of_int 600)
   \<and> \<not> isl (fst (y_centroid_func stored_position
          (axes_at (PyFloat (float_of_int 320)) (PyFloat (float_of_int 200)))))
   \<and> \<not> isl (fst (x_centroid_func stored_position
          (axes_at (PyFloat (float_of_int 600)) (PyFloat (float_of_int 200)))))
   \<and> readback (y_centroid (fst (snd (Imager_trigger stored_position finished_trigger example_imager
        (axes_at (PyFloat (float_of_int 320)) (PyFloat (float_of_int 200)))))))
     = readback (y_centroid (fst (snd (Imager_trigger stored_position finished_trigger example_imager
        (axes_at (PyFloat (float_of_int 600)) (PyFloat (float_of_int 200)))))))"
proof -
  let ?a = "axes_at (PyFloat (float_of_int 320)) (PyFloat (float_of_int 200)) :: SynAxis state"
  let ?b = "axes_at (PyFloat (float_of_int 320)) (PyFloat (float_of_int 400)) :: SynAxis state"
  let ?c = "axes_at (PyFloat (float_of_int 600)) (PyFloat (float_of_int 200)) :: SynAxis state"
  have keep_x: "\<And>d t. readback (x_centroid (fst (snd (finished_trigger d (t :: SynAxis state)))))
      = readback (x_centroid d)"
    and keep_y: "\<And>d t. readback (y_centroid (fst (snd (finished_trigger d (t :: SynAxis state)))))
      = readback (y_centroid d)"
    by (simp_all add: finished_trigger_def)
  have same: "fst (stored_position (motor_x ?a)) = fst (stored_position (motor_x ?b))"
    "fst (stored_position (motor_y ?a)) = fst (stored_position (motor_y ?c))"
    by (simp_all only: position_axes_at)
  have moved: "PyFloat (float_of_int 200) \<noteq> PyFloat (float_of_int 400)"
    "PyFloat (float_of_int 320) \<noteq> PyFloat (float_of_int 600)"
    by (rule small_int_floats_differ; simp)+
  have returns: "\<not> isl (fst (x_centroid_func stored_position ?a))"
    "\<not> isl (fst (y_centroid_func stored_position ?a))"
    "\<not> isl (fst (x_centroid_func stored_position ?c))"
    by (simp_all add: x_centroid_func_def y_centroid_func_def partial_axes_at_on_screen)
  from same moved returns
    Imager_axes_independent [where super_trigger = finished_trigger
      and get_position = stored_position and s_a = ?a and s_b = ?b
      and self_a = example_imager and self_b = example_imager, OF keep_x keep_y]
    Imager_axes_independent [where super_trigger = finished_trigger
      and get_position = stored_position and s_a = ?a and s_b = ?c
      and self_a = example_imager and self_b = example_imager, OF keep_x keep_y]
  show ?thesis
    by blast
qed

text \<open>
  Claim C9 as it was stated fails when the position of x is an int too large for a
  float: the trigger raises before the y_centroid signal is triggered, so with y at the
  same position the y_centroid reading is the centroid of y in one state and the value
  held before in the other.
\<close>

theorem Imager_axes_overflow:
  "fst (stored_position (motor_y (axes_at (PyFloat (float_of_int 320)) (PyFloat (float_of_int 200)))))
     = fst (stored_position (motor_y (axes_at (PyInt huge_int) (PyFloat (float_of_int 200)))))
   \<and> readback (y_centroid (fst (snd (Imager_trigger stored_position finished_trigger example_imager
        (axes_at (PyFloat (float_of_int 320)) (PyFloat (float_of_int 200)))))))
     = PyFloat (float_of_int 200)
   \<and> readback (y_centroid (fst (snd (Imager_trigger stored_position finished_trigger example_imager
        (axes_at (PyInt huge_int) (PyFloat (float_of_int 200)))))))
     = PyFloat float_zero
   \<and> PyFloat (float_of_int 200) \<noteq> PyFloat float_zero"
proof -
  have "PyFloat (float_of_int 200) \<noteq> PyFloat float_zero"
    by (rule small_int_float_not_zero) simp_all
  then show ?thesis
    unfolding Imager_trigger_cases partial_axes_at_overflow
    using partial_axes_at_on_screen [of 320 200]
    by (simp add: position_axes_at finished_trigger_def example_imager_def)
qed

text \<open>
  Claim C10: the hints of the detector are a dictionary with the single key 'fields',
  whose value is the list of the name of the x_centroid signal followed by the name of
  the y_centroid signal.
\<close>

theorem Imager_hints_fields:
  "dom (hints self) = {''fields''}
   \<and> hints self ''fields'' = Some [name (x_centroid self), name (y_centroid self)]"
  by (simp add: hints_def)

end
